theory Spec2Isabelle
  imports Main "HOL-Library.Sublist" "HOL-Library.AList"
begin

section \<open>The PDF ingestion pipeline of tools/ingest/pdf\_ingestor\_gemini.py\<close>

text \<open>
  The development embeds the functions of \<^verbatim>\<open>pdf_ingestor_gemini.py\<close>: the chunking loop
  and the summarising loop of \<^verbatim>\<open>process_pdf\<close>, \<^verbatim>\<open>query_chatgpt\<close>, \<^verbatim>\<open>log_error\<close>,
  \<^verbatim>\<open>extract_text_from_pdf\<close>, \<^verbatim>\<open>update_valon_archive\<close>, \<^verbatim>\<open>process_pdf\<close> itself and
  \<^verbatim>\<open>compare_results\<close>. Python strings are lists of characters with a code below 256,
  Python integers are \<^typ>\<open>int\<close>, values read from and written to JSON files are
  elements of the type \<open>json\<close>, a Python \<^verbatim>\<open>dict\<close> being an association list in insertion
  order and a JSON number an integer (a number has neither \<^verbatim>\<open>get\<close> nor \<^verbatim>\<open>len\<close>, which is
  all the module asks of it). The file system, the standard output and the calls made to the two
  summary providers are the fields of an explicit \<open>world\<close> threaded through every
  function. A raised exception is the left injection of a sum.
\<close>

subsection \<open>Python values and built-ins\<close>

datatype json =
    JNull
  | JBool bool
  | JNum int
  | JStr string
  | JArr "json list"
  | JObj "(string \<times> json) list"

datatype error =
    FileNotFoundError
  | PermissionError
  | JSONDecodeError
  | AttributeError
  | TypeError
  | KeyError
  | NameError

text \<open>
  The slice \<^verbatim>\<open>xs[i:j]\<close> with step 1: a negative index counts from the end of the list and
  both indices are clipped to the list.
\<close>

definition py_slice :: "'a list \<Rightarrow> int \<Rightarrow> int \<Rightarrow> 'a list" where
  "py_slice xs i j =
     (let n = int (length xs);
          lo = (if i < 0 then max (i + n) 0 else min i n);
          hi = (if j < 0 then max (j + n) 0 else min j n)
      in take (nat (hi - lo)) (drop (nat lo) xs))"

text \<open>\<^verbatim>\<open>sub in s\<close> on strings.\<close>

fun contains :: "string \<Rightarrow> string \<Rightarrow> bool" where
  "contains sub [] = (sub = [])"
| "contains sub (c # s) = (prefix sub (c # s) \<or> contains sub s)"

text \<open>
  \<^verbatim>\<open>str.isspace\<close> on one character with a code below 256, and \<^verbatim>\<open>str.strip()\<close>.
\<close>

definition isspace :: "char \<Rightarrow> bool" where
  "isspace c = (of_char c \<in> {9, 10, 11, 12, 13, 28, 29, 30, 31, 32, 133, 160 :: nat})"

definition strip :: "string \<Rightarrow> string" where
  "strip s = rev (dropWhile isspace (rev (dropWhile isspace s)))"

text \<open>\<^verbatim>\<open>str(n)\<close> for a natural number, in decimal.\<close>

fun str_nat :: "nat \<Rightarrow> string" where
  "str_nat n =
     (if n < 10 then [char_of (48 + n)]
      else str_nat (n div 10) @ [char_of (48 + n mod 10)])"

declare str_nat.simps [simp del]

text \<open>\<^verbatim>\<open>sep.join(xs)\<close>.\<close>

fun join :: "string \<Rightarrow> string list \<Rightarrow> string" where
  "join sep [] = []"
| "join sep [x] = x"
| "join sep (x # y # ys) = x @ sep @ join sep (y # ys)"

text \<open>
  \<^verbatim>\<open>s.replace(old, new)\<close> for a non-empty \<^verbatim>\<open>old\<close>, which is the only way the module
  calls it (\<^verbatim>\<open>'.pdf'\<close> and \<^verbatim>\<open>'_gemini.json'\<close>).
\<close>

function replace :: "string \<Rightarrow> string \<Rightarrow> string \<Rightarrow> string" where
  "replace [] old new = []"
| "replace (c # s) old new =
     (if old \<noteq> [] \<and> prefix old (c # s)
      then new @ replace (drop (length old) (c # s)) old new
      else c # replace s old new)"
  by pat_completeness auto
termination
  by (relation "measure (\<lambda>(s, old, new). length s)") auto

text \<open>\<^verbatim>\<open>d.get(key, default)\<close>: only a \<^verbatim>\<open>dict\<close> has the method.\<close>

fun py_get :: "json \<Rightarrow> string \<Rightarrow> json \<Rightarrow> error + json" where
  "py_get (JObj kvs) key dflt =
     Inr (case map_of kvs key of Some v \<Rightarrow> v | None \<Rightarrow> dflt)"
| "py_get _ key dflt = Inl AttributeError"

text \<open>\<^verbatim>\<open>d[key]\<close> with a string key.\<close>

fun py_getitem :: "json \<Rightarrow> string \<Rightarrow> error + json" where
  "py_getitem (JObj kvs) key =
     (case map_of kvs key of Some v \<Rightarrow> Inr v | None \<Rightarrow> Inl KeyError)"
| "py_getitem _ key = Inl TypeError"

text \<open>\<^verbatim>\<open>xs.append(x)\<close>: only a \<^verbatim>\<open>list\<close> has the method. The updated list is returned.\<close>

fun py_append :: "json \<Rightarrow> json \<Rightarrow> error + json" where
  "py_append (JArr xs) x = Inr (JArr (xs @ [x]))"
| "py_append _ x = Inl AttributeError"

text \<open>\<^verbatim>\<open>len(x)\<close>.\<close>

fun py_len :: "json \<Rightarrow> error + nat" where
  "py_len (JStr s) = Inr (length s)"
| "py_len (JArr xs) = Inr (length xs)"
| "py_len (JObj kvs) = Inr (length kvs)"
| "py_len _ = Inl TypeError"

subsection \<open>The world: files, standard output, provider calls, clock\<close>

text \<open>
  A file holds a JSON document, or text that \<^verbatim>\<open>json.load\<close> rejects, or cannot be
  opened for reading. A printed line is the list of its fragments: literal text, an
  interpolated value, or an interpolated exception.
\<close>

datatype file_content = Json json | NotJson | Unreadable

datatype frag = Txt string | Val json | Exc error

datatype call =
    AnalyzeDocumentChunk string nat nat
  | QueryChatGPT string

record world =
  files :: "string \<Rightarrow> file_content option"
  stdout :: "frag list list"
  calls :: "call list"
  clock :: nat

text \<open>
  The collaborators that are not part of the module: the PDF reader (the texts of the
  pages, or \<open>None\<close> when reading raises), the Gemini bridge, the chat completion
  behind \<^verbatim>\<open>query_chatgpt\<close> (\<open>Inl\<close> carries the message of the exception raised inside
  its \<^verbatim>\<open>try\<close>), the memory engine, and the rendering of the clock by
  \<^verbatim>\<open>datetime.now().isoformat()\<close>.
\<close>

record env =
  PdfReader :: "string \<Rightarrow> string list option"
  analyze_document_chunk :: "string \<Rightarrow> nat \<Rightarrow> nat \<Rightarrow> string"
  chat_completion :: "string \<Rightarrow> string + string"
  reflect_valon_consciousness :: "string \<Rightarrow> json"
  add_memory_node :: "json \<Rightarrow> string option"
  isoformat :: "nat \<Rightarrow> string"

definition py_print :: "frag list \<Rightarrow> world \<Rightarrow> world" where
  "py_print line w = w\<lparr>stdout := stdout w @ [line]\<rparr>"

definition datetime_now :: "env \<Rightarrow> world \<Rightarrow> string \<times> world" where
  "datetime_now env w = (isoformat env (clock w), w\<lparr>clock := Suc (clock w)\<rparr>)"

definition path_exists :: "string \<Rightarrow> world \<Rightarrow> bool" where
  "path_exists path w = (files w path \<noteq> None)"

text \<open>\<^verbatim>\<open>with open(path, "r") as f: json.load(f)\<close>.\<close>

definition json_load :: "string \<Rightarrow> world \<Rightarrow> error + json" where
  "json_load path w =
     (case files w path of
        None \<Rightarrow> Inl FileNotFoundError
      | Some Unreadable \<Rightarrow> Inl PermissionError
      | Some NotJson \<Rightarrow> Inl JSONDecodeError
      | Some (Json j) \<Rightarrow> Inr j)"

text \<open>\<^verbatim>\<open>with open(path, "w") as f: json.dump(j, f, indent=2)\<close>.\<close>

definition json_dump :: "string \<Rightarrow> json \<Rightarrow> world \<Rightarrow> world" where
  "json_dump path j w = w\<lparr>files := (files w)(path \<mapsto> Json j)\<rparr>"

text \<open>Sequencing of steps that may raise: the first exception ends the sequence.\<close>

definition and_then ::
  "(world \<Rightarrow> (error + 'a) \<times> world) \<Rightarrow> ('a \<Rightarrow> world \<Rightarrow> (error + 'b) \<times> world) \<Rightarrow>
   world \<Rightarrow> (error + 'b) \<times> world" where
  "and_then m f w =
     (case m w of
        (Inl e, w') \<Rightarrow> (Inl e, w')
      | (Inr x, w') \<Rightarrow> f x w')"

definition eval_py :: "error + 'a \<Rightarrow> world \<Rightarrow> (error + 'a) \<times> world" where
  "eval_py r w = (r, w)"

definition load_step :: "string \<Rightarrow> world \<Rightarrow> (error + json) \<times> world" where
  "load_step path w = (json_load path w, w)"

definition print_step :: "frag list \<Rightarrow> world \<Rightarrow> (error + unit) \<times> world" where
  "print_step line w = (Inr (), py_print line w)"

subsection \<open>Module constants\<close>

definition SOURCE_DIR :: string where
  "SOURCE_DIR = ''source_pdfs''"

definition MEMORY_VAULT :: string where
  "MEMORY_VAULT = ''memory_vault''"

definition path_join :: "string \<Rightarrow> string \<Rightarrow> string" where
  "path_join a b = a @ ''/'' @ b"

definition MODI_DIR :: string where
  "MODI_DIR = path_join MEMORY_VAULT ''modi''"

definition VALON_DIR :: string where
  "VALON_DIR = path_join MEMORY_VAULT ''valon''"

definition VALON_ARCHIVE :: string where
  "VALON_ARCHIVE = path_join VALON_DIR ''valon_symbolic_archive.json''"

definition ENTROPY_DIR :: string where
  "ENTROPY_DIR = ''entropy_logs''"

subsection \<open>Helper functions of the module\<close>

text \<open>
  \<^verbatim>\<open>query_chatgpt\<close>: whatever is raised inside the \<^verbatim>\<open>try\<close> is printed and returned as
  the string \<^verbatim>\<open>"Error: ..."\<close>.
\<close>

definition query_chatgpt :: "env \<Rightarrow> string \<Rightarrow> world \<Rightarrow> string \<times> world" where
  "query_chatgpt env prompt w =
     (let w1 = w\<lparr>calls := calls w @ [QueryChatGPT prompt]\<rparr> in
      case chat_completion env prompt of
        Inr content \<Rightarrow> (content, w1)
      | Inl e \<Rightarrow>
          (''Error: '' @ e, py_print [Txt ''[ERROR] ChatGPT query failed: '', Txt e] w1))"

definition log_error :: "env \<Rightarrow> string \<Rightarrow> string \<Rightarrow> world \<Rightarrow> (error + unit) \<times> world" where
  "log_error env reason filename w =
     (case datetime_now env w of (timestamp, w1) \<Rightarrow>
      let entry = JObj [(''timestamp'', JStr timestamp), (''source'', JStr filename),
                        (''reason'', JStr reason), (''flag'', JStr ''processing_error'')];
          log_path = path_join ENTROPY_DIR ''processing_errors.json''
      in and_then
           (if path_exists log_path w1 then load_step log_path else eval_py (Inr (JArr [])))
           (\<lambda>logs. and_then (eval_py (py_append logs entry))
           (\<lambda>logs'. and_then (\<lambda>w. (Inr (), json_dump log_path logs' w))
           (\<lambda>_. print_step [Txt ''[ERROR] '', Txt reason, Txt '' for '', Txt filename])))
           w1)"

fun pages_loop :: "nat \<Rightarrow> string list \<Rightarrow> string \<Rightarrow> string" where
  "pages_loop i [] text = text"
| "pages_loop i (page_text # pages) text =
     pages_loop (Suc i) pages
       (if page_text \<noteq> []
        then text @ [CHR 0x0A] @ ''--- Page '' @ str_nat (i + 1) @ '' ---'' @ [CHR 0x0A]
               @ page_text @ [CHR 0x0A]
        else text)"

definition extract_text_from_pdf :: "env \<Rightarrow> string \<Rightarrow> world \<Rightarrow> string option \<times> world" where
  "extract_text_from_pdf env pdf_path w =
     (let w1 = py_print [Txt ''[INFO] Extracting text from '', Txt pdf_path] w in
      case PdfReader env pdf_path of
        Some pages \<Rightarrow> (Some (pages_loop 0 pages []), w1)
      | None \<Rightarrow> (None, py_print [Txt ''[ERROR] Failed to extract text: ''] w1))"

definition reflect_valon :: "env \<Rightarrow> string \<Rightarrow> json" where
  "reflect_valon env content = reflect_valon_consciousness env content"

definition default_archive :: json where
  "default_archive =
     JObj [(''symbolic_events'', JArr []), (''drift_logs'', JArr []),
           (''reasoning_blends'', JArr []), (''dream_logs'', JArr [])]"

text \<open>
  In \<^verbatim>\<open>archive["symbolic_events"].append(...)\<close> the list held by the dictionary is
  changed in place: the dictionary keeps its keys and their order.
\<close>

definition append_event :: "json \<Rightarrow> json \<Rightarrow> error + json" where
  "append_event archive event =
     (case py_getitem archive ''symbolic_events'' of
        Inl e \<Rightarrow> Inl e
      | Inr events \<Rightarrow>
          (case py_append events event of
             Inl e \<Rightarrow> Inl e
           | Inr events' \<Rightarrow>
               (case archive of
                  JObj kvs \<Rightarrow> Inr (JObj (AList.update ''symbolic_events'' events' kvs))
                | _ \<Rightarrow> Inl TypeError)))"

text \<open>
  The subscript and the lookup of \<^verbatim>\<open>append\<close> are evaluated before the argument of the call:
  when one of them raises, the clock has not been read.
\<close>

definition update_valon_archive ::
  "env \<Rightarrow> string \<Rightarrow> json \<Rightarrow> world \<Rightarrow> (error + unit) \<times> world" where
  "update_valon_archive env filename reflection w =
     and_then
       (if path_exists VALON_ARCHIVE w then load_step VALON_ARCHIVE
        else eval_py (Inr default_archive))
       (\<lambda>archive w1.
          case datetime_now env w1 of (timestamp, w2) \<Rightarrow>
            (case append_event archive
                    (JObj [(''source'', JStr filename), (''reflected'', reflection),
                           (''timestamp'', JStr timestamp)]) of
               Inl e \<Rightarrow> (Inl e, w1)
             | Inr archive' \<Rightarrow>
                 and_then (\<lambda>w. (Inr (), json_dump VALON_ARCHIVE archive' w))
                   (\<lambda>_. print_step [Txt ''[INFO] Updated VALON archive with '', Txt filename])
                   w2))
       w"

subsection \<open>The chunking loop of process\_pdf\<close>

text \<open>
  The \<^verbatim>\<open>while\<close> loop, with the two constants of \<^verbatim>\<open>process_pdf\<close> as parameters. The
  loop state is the cursor \<^verbatim>\<open>start\<close> and the list \<^verbatim>\<open>chunks\<close>; the result is the state
  at the exit of the loop, and \<open>None\<close> when the loop does not exit.
\<close>

partial_function (option) chunk_loop ::
  "int \<Rightarrow> int \<Rightarrow> 'a list \<Rightarrow> int \<Rightarrow> 'a list list \<Rightarrow> ('a list list \<times> int) option" where
  "chunk_loop chunk_size overlap content start chunks =
     (if start < int (length content) then
        (let end' = min (start + chunk_size) (int (length content)) in
         chunk_loop chunk_size overlap content (start + (chunk_size - overlap))
           (chunks @ [py_slice content start end']))
      else Some (chunks, start))"

declare chunk_loop.simps [code]

definition chunker :: "int \<Rightarrow> int \<Rightarrow> 'a list \<Rightarrow> 'a list list option" where
  "chunker chunk_size overlap content =
     map_option fst (chunk_loop chunk_size overlap content 0 [])"

subsection \<open>The summarising loop of process\_pdf\<close>

definition is_error_response :: "string \<Rightarrow> bool" where
  "is_error_response response =
     (contains ''Error:'' response \<or> contains ''timed out'' response)"

definition chatgpt_prompt :: "string \<Rightarrow> string" where
  "chatgpt_prompt chunk =
     ''Summarize and extract key points from this section of a vehicle service manual:''
       @ [CHR 0x0A, CHR 0x0A] @ chunk"

text \<open>The body of the \<^verbatim>\<open>for\<close> loop: the string appended to \<^verbatim>\<open>summaries\<close>.\<close>

definition summarize_chunk ::
  "env \<Rightarrow> nat \<Rightarrow> nat \<Rightarrow> string \<Rightarrow> world \<Rightarrow> string \<times> world" where
  "summarize_chunk env i chunk_total chunk w =
     (let w1 = py_print [Txt ''[INFO] Summarizing chunk '', Val (JNum (int i + 1)), Txt ''/'',
                         Val (JNum (int chunk_total)), Txt '' with Gemini...''] w;
          response = analyze_document_chunk env chunk i chunk_total;
          w2 = w1\<lparr>calls := calls w1 @ [AnalyzeDocumentChunk chunk i chunk_total]\<rparr>
      in case (if is_error_response response
               then query_chatgpt env (chatgpt_prompt chunk)
                      (py_print [Txt ''[INFO] Gemini failed on chunk '', Val (JNum (int i + 1)),
                                 Txt '', falling back to ChatGPT''] w2)
               else (response, w2)) of
           (response', w3) \<Rightarrow>
             (''--- Chunk '' @ str_nat (i + 1) @ '' ---'' @ [CHR 0x0A] @ strip response', w3))"

fun summarize_loop ::
  "env \<Rightarrow> nat \<Rightarrow> nat \<Rightarrow> string list \<Rightarrow> string list \<Rightarrow> world \<Rightarrow> string list \<times> world" where
  "summarize_loop env i chunk_total [] summaries w = (summaries, w)"
| "summarize_loop env i chunk_total (chunk # rest) summaries w =
     (case summarize_chunk env i chunk_total chunk w of
        (s, w') \<Rightarrow> summarize_loop env (Suc i) chunk_total rest (summaries @ [s]) w')"

subsection \<open>process\_pdf\<close>

text \<open>
  The names \<^verbatim>\<open>assign_uid\<close> and \<^verbatim>\<open>create_link\<close> are neither defined nor imported by the
  module, so the call made under \<^verbatim>\<open>link=True\<close> raises \<^verbatim>\<open>NameError\<close>. The result is
  \<open>None\<close> when the chunking loop does not exit.
\<close>

definition stem :: "string \<Rightarrow> string" where
  "stem filename = replace filename ''.pdf'' []"

definition process_content ::
  "env \<Rightarrow> string \<Rightarrow> string \<Rightarrow> bool \<Rightarrow> string list \<Rightarrow> world \<Rightarrow> (error + bool) \<times> world" where
  "process_content env content filename link chunks w =
     (case summarize_loop env 0 (length chunks) chunks [] w of (summaries, w1) \<Rightarrow>
      let summary = join [CHR 0x0A, CHR 0x0A] summaries;
          reflection = reflect_valon env content;
          w2 = py_print [Txt ''[INFO] Saving '', Txt filename, Txt '' to MODI memory''] w1
      in case datetime_now env w2 of (timestamp, w3) \<Rightarrow>
      let entry = [(''source'', JStr filename), (''timestamp'', JStr timestamp),
                   (''content_sample'', JStr (py_slice content 0 5000)),
                   (''full_content_length'', JNum (int (length content))),
                   (''summary'', JStr summary), (''valon_reflection'', reflection),
                   (''processor'', JStr ''gemini'')]
      in if link then (Inl NameError, w3)
         else
           let entry' = (case add_memory_node env (JObj entry) of
                           Some hybrid_uid \<Rightarrow>
                             (if hybrid_uid \<noteq> []
                              then AList.update ''hybrid_uid'' (JStr hybrid_uid) entry
                              else entry)
                         | None \<Rightarrow> entry);
               modi_path = path_join MODI_DIR (stem filename @ ''_gemini.json'');
               w4 = json_dump modi_path (JObj entry') w3
           in and_then (update_valon_archive env filename reflection)
                (\<lambda>_ w5.
                   let valon_path = path_join VALON_DIR (stem filename @ ''_gemini.json'');
                       w6 = json_dump valon_path
                              (JObj [(''summary'', JStr summary), (''reflection'', reflection)]) w5;
                       w7 = py_print [Txt ''[INFO] VALON summary saved to '', Txt valon_path] w6;
                       w8 = py_print [Txt ''[SUCCESS] '', Txt filename,
                                      Txt '' processed successfully with Gemini''] w7
                   in (Inr True, w8))
                w4)"

definition process_pdf ::
  "env \<Rightarrow> string \<Rightarrow> string \<Rightarrow> bool \<Rightarrow> world \<Rightarrow> ((error + bool) \<times> world) option" where
  "process_pdf env filepath filename link w =
     (let w1 = py_print [Txt ''[INFO] Processing '', Txt filename, Txt '' with Gemini''] w in
      case extract_text_from_pdf env filepath w1 of (content, w2) \<Rightarrow>
        if content = None \<or> content = Some [] then
          Some (and_then (log_error env ''Failed to extract text'' filename)
                  (\<lambda>_ w3. (Inr False, w3)) w2)
        else
          (case content of
             None \<Rightarrow> None
           | Some text \<Rightarrow>
               let w3 = py_print [Txt ''[INFO] Generating full summary from chunked content for '',
                                  Txt filename] w2;
                   chunk_size = 3000;
                   overlap = 500
               in map_option (\<lambda>chunks. process_content env text filename link chunks w3)
                    (chunker chunk_size overlap text)))"

subsection \<open>compare\_results\<close>

text \<open>The body of the \<^verbatim>\<open>try\<close>: printed lines stay printed when a later step raises.\<close>

definition compare_body :: "string \<Rightarrow> string \<Rightarrow> world \<Rightarrow> (error + bool) \<times> world" where
  "compare_body original_file gemini_file =
     and_then (load_step original_file) (\<lambda>original_data.
     and_then (load_step gemini_file) (\<lambda>gemini_data.
     and_then (print_step [Txt [CHR 0x0A], Txt ''=== COMPARISON RESULTS ==='']) (\<lambda>_.
     and_then (eval_py (py_get original_data ''processor'' (JStr ''mistral''))) (\<lambda>p.
     and_then (print_step [Txt ''Original processor: '', Val p]) (\<lambda>_.
     and_then (eval_py (py_get gemini_data ''processor'' (JStr ''gemini''))) (\<lambda>p.
     and_then (print_step [Txt ''Gemini processor: '', Val p]) (\<lambda>_.
     and_then (eval_py (py_get original_data ''summary'' (JStr []))) (\<lambda>s.
     and_then (eval_py (py_len s)) (\<lambda>original_summary_len.
     and_then (eval_py (py_get gemini_data ''summary'' (JStr []))) (\<lambda>s.
     and_then (eval_py (py_len s)) (\<lambda>gemini_summary_len.
     and_then (print_step [Txt ''Summary length - Original: '',
                           Val (JNum (int original_summary_len)), Txt '', Gemini: '',
                           Val (JNum (int gemini_summary_len))]) (\<lambda>_.
     and_then (eval_py (py_get original_data ''valon_reflection'' (JObj []))) (\<lambda>original_valon.
     and_then (eval_py (py_get gemini_data ''valon_reflection'' (JObj []))) (\<lambda>gemini_valon.
     and_then (print_step [Txt [CHR 0x0A], Txt ''=== VALON REFLECTION COMPARISON ==='']) (\<lambda>_.
     and_then (eval_py (py_get original_valon ''symbolic_terms'' (JArr []))) (\<lambda>t.
     and_then (print_step [Txt ''Original symbolic terms: '', Val t]) (\<lambda>_.
     and_then (eval_py (py_get gemini_valon ''symbolic_terms'' (JArr []))) (\<lambda>t.
     and_then (print_step [Txt ''Gemini symbolic terms: '', Val t]) (\<lambda>_.
     and_then (eval_py (py_get original_valon ''emotions'' (JArr []))) (\<lambda>t.
     and_then (print_step [Txt ''Original emotions: '', Val t]) (\<lambda>_.
     and_then (eval_py (py_get gemini_valon ''emotions'' (JArr []))) (\<lambda>t.
     and_then (print_step [Txt ''Gemini emotions: '', Val t]) (\<lambda>_.
     eval_py (Inr True))))))))))))))))))))))))"

text \<open>\<^verbatim>\<open>except Exception as e\<close>: every exception of the body is printed and answered by False.\<close>

definition compare_results :: "string \<Rightarrow> string \<Rightarrow> world \<Rightarrow> (error + bool) \<times> world" where
  "compare_results original_file gemini_file w =
     (case compare_body original_file gemini_file w of
        (Inr r, w') \<Rightarrow> (Inr r, w')
      | (Inl e, w') \<Rightarrow>
          (Inr False, py_print [Txt ''[ERROR] Failed to compare results: '', Exc e] w'))"

text \<open>The \<^verbatim>\<open>--compare\<close> branch of \<^verbatim>\<open>main\<close>.\<close>

definition main_compare :: "string \<Rightarrow> world \<Rightarrow> (error + unit) \<times> world" where
  "main_compare compare w =
     (let original_file = replace compare ''_gemini.json'' ''.json'' in
      if path_exists original_file w \<and> path_exists compare w then
        and_then (compare_results original_file compare) (\<lambda>_. eval_py (Inr ())) w
      else
        print_step [Txt ''[ERROR] Cannot compare - missing files: '', Txt original_file,
                    Txt '' or '', Txt compare] w)"

subsection \<open>Notions used in the statements\<close>

text \<open>
  The number of times the body of the chunking loop runs from the cursor \<open>start\<close>, for a
  positive step.
\<close>

definition iterations :: "int \<Rightarrow> int \<Rightarrow> int \<Rightarrow> nat" where
  "iterations step n start = nat ((n - start + step - 1) div step)"

text \<open>
  The non-overlapping portions of a sequence of chunks, concatenated: the first
  \<open>step\<close> characters of every chunk but the last, then the last chunk whole.
\<close>

fun reassemble :: "nat \<Rightarrow> 'a list list \<Rightarrow> 'a list" where
  "reassemble step [] = []"
| "reassemble step [c] = c"
| "reassemble step (c # d # cs) = take step c @ reassemble step (d # cs)"

text \<open>
  Two consecutive chunks overlap by exactly \<open>k\<close> characters: the last \<open>k\<close> characters
  of the first are the first \<open>k\<close> characters of the second.
\<close>

definition overlap_exactly :: "nat \<Rightarrow> 'a list \<Rightarrow> 'a list \<Rightarrow> bool" where
  "overlap_exactly k a b =
     (k \<le> length a \<and> k \<le> length b \<and> drop (length a - k) a = take k b)"

text \<open>
  A valid archive: a dictionary in which each of the four names is bound to a list.
\<close>

fun is_sequence :: "error + json \<Rightarrow> bool" where
  "is_sequence (Inr (JArr xs)) = True"
| "is_sequence _ = False"

definition valid_archive :: "json \<Rightarrow> bool" where
  "valid_archive archive =
     (is_sequence (py_getitem archive ''symbolic_events'')
      \<and> is_sequence (py_getitem archive ''drift_logs'')
      \<and> is_sequence (py_getitem archive ''reasoning_blends'')
      \<and> is_sequence (py_getitem archive ''dream_logs''))"

text \<open>
  The archive that \<^verbatim>\<open>update_valon_archive\<close> starts from: the content of the archive file,
  and the four empty sequences when there is no such file.
\<close>

definition prior_archive :: "world \<Rightarrow> json" where
  "prior_archive w =
     (case files w VALON_ARCHIVE of
        Some (Json archive) \<Rightarrow> archive
      | _ \<Rightarrow> default_archive)"

text \<open>The record appended to \<^verbatim>\<open>symbolic_events\<close>.\<close>

definition symbolic_event :: "string \<Rightarrow> json \<Rightarrow> string \<Rightarrow> json" where
  "symbolic_event filename reflection timestamp =
     JObj [(''source'', JStr filename), (''reflected'', reflection),
           (''timestamp'', JStr timestamp)]"

text \<open>A world with no file, and collaborators for the examples.\<close>

definition empty_world :: world where
  "empty_world = \<lparr>files = (\<lambda>path. None), stdout = [], calls = [], clock = 0\<rparr>"

definition example_reflection :: json where
  "example_reflection =
     JObj [(''symbolic_terms'', JArr [JStr ''engine'']), (''emotions'', JArr [JStr ''care'']),
           (''structure'', JStr ''procedure''), (''meaning'', JStr ''maintenance'')]"

definition example_env :: env where
  "example_env =
     \<lparr>PdfReader = (\<lambda>path. if path = ''source_pdfs/blank.pdf'' then Some [[], []] else None),
      analyze_document_chunk = (\<lambda>chunk i n. ''[ERROR: API request failed - 500]''),
      chat_completion = (\<lambda>prompt. Inl ''Connection error.''),
      reflect_valon_consciousness = (\<lambda>content. example_reflection),
      add_memory_node = (\<lambda>entry. None),
      isoformat = str_nat\<rparr>"

definition failing_env :: env where
  "failing_env =
     example_env\<lparr>analyze_document_chunk := (\<lambda>chunk i n. ''Error: request timed out'')\<rparr>"

text \<open>What a run of \<^verbatim>\<open>process_pdf\<close> answered, and what it left behind.\<close>

definition answer_of :: "((error + bool) \<times> world) option \<Rightarrow> (error + bool) option" where
  "answer_of run = map_option fst run"

definition file_after :: "((error + bool) \<times> world) option \<Rightarrow> string \<Rightarrow> file_content option option" where
  "file_after run path = map_option (\<lambda>r. files (snd r) path) run"

definition calls_after :: "((error + bool) \<times> world) option \<Rightarrow> call list option" where
  "calls_after run = map_option (\<lambda>r. calls (snd r)) run"

definition example_world :: world where
  "example_world =
     \<lparr>files = [''memory_vault/modi/manual.json'' \<mapsto> Json (JObj [(''summary'', JStr ''text'')]),
               ''memory_vault/modi/manual_gemini.json'' \<mapsto> Unreadable],
      stdout = [], calls = [], clock = 0\<rparr>"

text \<open>A step whose only effect on the world is to print lines.\<close>

definition only_prints :: "(world \<Rightarrow> 'a \<times> world) \<Rightarrow> bool" where
  "only_prints m = (\<forall>w. \<exists>out. snd (m w) = w\<lparr>stdout := stdout w @ out\<rparr>)"

section \<open>Properties of the chunking loop\<close>

subsection \<open>The closed form of the loop\<close>

lemma iterations_done: 
  assumes "0 < step" "n \<le> start"
  shows "iterations step n start = 0"
proof -
  have "n - start + step - 1 \<le> step - 1" using assms by simp
  then have "(n - start + step - 1) div step \<le> (step - 1) div step"
    using assms(1) by (rule zdiv_mono1)
  also have "(step - 1) div step = 0" using assms(1) by simp
  finally show ?thesis by (simp add: iterations_def)
qed

lemma iterations_step:
  assumes "0 < step" "start < n"
  shows "iterations step n start = Suc (iterations step n (start + step))"
proof -
  have e: "n - start + step - 1 = (n - (start + step) + step - 1) + step" by simp
  have "(n - start + step - 1) div step = (n - (start + step) + step - 1) div step + 1"
    unfolding e using assms(1) by (subst div_add_self2) simp_all
  moreover have "0 \<le> (n - (start + step) + step - 1) div step"
    using assms by (simp add: pos_imp_zdiv_nonneg_iff)
  ultimately show ?thesis by (simp add: iterations_def)
qed

lemma chunk_loop_closed:
  assumes "0 < chunk_size - overlap"
  shows "chunk_loop chunk_size overlap content start chunks =
     Some (chunks @ map (\<lambda>i. py_slice content (start + int i * (chunk_size - overlap))
                 (min (start + int i * (chunk_size - overlap) + chunk_size) (int (length content))))
               [0..<iterations (chunk_size - overlap) (int (length content)) start],
           start + int (iterations (chunk_size - overlap) (int (length content)) start) * (chunk_size - overlap))"
proof (induction "nat (int (length content) - start)" arbitrary: start chunks rule: less_induct)
  case less
  show ?case
  proof (cases "start < int (length content)")
    case False
    then show ?thesis
      using assms by (subst chunk_loop.simps) (simp add: iterations_done)
  next
    case True
    have m: "nat (int (length content) - (start + (chunk_size - overlap))) < nat (int (length content) - start)"
      using True assms by linarith
    show ?thesis
      apply (subst chunk_loop.simps)
      apply (simp only: True if_True Let_def less.hyps [OF m])
      apply (simp add: iterations_step [OF assms True] map_upt_Suc del: upt_Suc)
      apply (simp add: algebra_simps)
      done
  qed
qed

lemma iterations_reaches:
  assumes "0 < step"
  shows "n - start \<le> int (iterations step n start) * step"
proof -
  let ?a = "n - start + step - 1"
  have "?a = ?a div step * step + ?a mod step" by simp
  moreover have "?a mod step < step" using assms by simp
  ultimately have "?a - (step - 1) \<le> ?a div step * step" by linarith
  then have 1: "n - start \<le> ?a div step * step" by simp
  show ?thesis
  proof (cases "0 \<le> ?a div step")
    case True then show ?thesis using 1 by (simp add: iterations_def)
  next
    case False
    then have "?a div step * step \<le> 0" using assms by (simp add: mult_le_0_iff)
    then show ?thesis using 1 by (simp add: iterations_def)
  qed
qed

lemma iterations_before:
  assumes "0 < step" "j < iterations step n start"
  shows "start + int j * step < n"
proof -
  let ?a = "n - start + step - 1"
  have pos: "0 < ?a div step" using assms(2) by (simp add: iterations_def)
  have "int j + 1 \<le> ?a div step" using assms(2) by (simp add: iterations_def)
  then have "(int j + 1) * step \<le> ?a div step * step" using assms(1) by simp
  also have "\<dots> \<le> ?a" using assms(1) by (metis add.commute add_0 le_add_same_cancel1 mult.commute mult_div_mod_eq pos_mod_sign)
  finally show ?thesis by (simp add: algebra_simps)
qed

lemma py_slice_window:
  assumes "0 \<le> a" "0 \<le> c"
  shows "py_slice xs a (min (a + c) (int (length xs))) = take (nat c) (drop (nat a) xs)"
  using assms by (auto simp: py_slice_def Let_def min_def)

subsection \<open>Termination of the chunking loop\<close>

text \<open>
  Claim C7. Whenever \<open>chunk_size - overlap\<close> is positive the chunking loop exits, for every
  text: it returns its chunks and its final cursor. The body has run \<open>k\<close> times, the
  final cursor \<open>k * (chunk_size - overlap)\<close> has reached the length of the text, and every
  earlier value of the cursor was below that length, so the loop stops at the first
  cursor that reaches \<^verbatim>\<open>len(content)\<close>.
\<close>
theorem chunk_loop_terminates:
  assumes "0 < chunk_size - overlap"
  shows "\<exists>chunks k.
           chunk_loop chunk_size overlap content 0 [] = Some (chunks, int k * (chunk_size - overlap))
         \<and> length chunks = k
         \<and> int (length content) \<le> int k * (chunk_size - overlap)
         \<and> (\<forall>j<k. int j * (chunk_size - overlap) < int (length content))"
proof -
  let ?k = "iterations (chunk_size - overlap) (int (length content)) 0"
  have "int (length content) \<le> int ?k * (chunk_size - overlap)"
    using iterations_reaches [OF assms, of "int (length content)" 0] by simp
  moreover have "\<forall>j<?k. int j * (chunk_size - overlap) < int (length content)"
    using iterations_before [OF assms, of _ "int (length content)" 0] by simp
  ultimately show ?thesis
    by (simp add: chunk_loop_closed [OF assms])
qed

theorem chunk_loop_terminates_witness:
  "(0::int) < 3000 - 500 \<and>
   (\<exists>chunks k. chunk_loop 3000 500 ''abc'' 0 [] = Some (chunks, int k * (3000 - 500))
      \<and> length chunks = k \<and> int (length ''abc'') \<le> int k * (3000 - 500)
      \<and> (\<forall>j<k. int j * (3000 - 500) < int (length ''abc'')))
   \<and> chunk_loop 3000 500 ''abc'' 0 [] = Some ([''abc''], 2500)"
proof -
  have h: "(0::int) < 3000 - 500" by simp
  have "chunk_loop 3000 500 ''abc'' 0 [] = Some ([''abc''], 2500)"
    by (simp add: chunk_loop.simps py_slice_def)
  with h chunk_loop_terminates [OF h, of "''abc''"] show ?thesis by blast
qed

lemma chunker_closed:
  assumes "0 < overlap" "overlap < chunk_size"
  shows "chunker chunk_size overlap content =
     Some (map (\<lambda>i. take (nat chunk_size) (drop (i * nat (chunk_size - overlap)) content))
             [0..<iterations (chunk_size - overlap) (int (length content)) 0])"
proof -
  have s: "0 < chunk_size - overlap" using assms by simp
  have "py_slice content (int i * (chunk_size - overlap))
          (min (int i * (chunk_size - overlap) + chunk_size) (int (length content)))
        = take (nat chunk_size) (drop (i * nat (chunk_size - overlap)) content)" for i
    using assms by (subst py_slice_window) (simp_all add: nat_mult_distrib)
  then show ?thesis
    by (simp add: chunker_def chunk_loop_closed [OF s])
qed

lemma iterations_nat:
  assumes "0 < step"
  shows "iterations step (int n) 0 = (n + nat step - 1) div nat step"
proof -
  have "int n + step - 1 = int (n + nat step - 1)" using assms by linarith
  then have "(int n + step - 1) div step = int ((n + nat step - 1) div nat step)"
    using assms by (simp add: zdiv_int)
  then show ?thesis by (simp add: iterations_def)
qed

subsection \<open>The scenario of 4500 characters\<close>

text \<open>
  Claim C4. A text of 4500 characters, cut with \<open>chunk_size = 3000\<close> and
  \<open>overlap = 500\<close>, gives exactly two chunks: the slice \<^verbatim>\<open>[0:3000]\<close>, which is the first
  3000 characters, and the slice \<^verbatim>\<open>[2500:4500]\<close>, which is the text from offset 2500 on.
  The cursor advances by 2500 at each step and leaves the loop at 5000.
\<close>
theorem chunker_4500:
  assumes "length content = 4500"
  shows "chunk_loop 3000 500 content 0 [] =
           Some ([py_slice content 0 3000, py_slice content 2500 4500], 5000)
       \<and> chunker 3000 500 content = Some [py_slice content 0 3000, py_slice content 2500 4500]
       \<and> py_slice content 0 3000 = take 3000 content
       \<and> py_slice content 2500 4500 = drop 2500 content"
proof -
  have "chunk_loop 3000 500 content 0 [] =
           Some ([py_slice content 0 3000, py_slice content 2500 4500], 5000)"
    using assms by (simp add: chunk_loop.simps)
  moreover have "py_slice content 0 3000 = take 3000 content"
    using assms by (simp add: py_slice_def)
  moreover have "py_slice content 2500 4500 = drop 2500 content"
    using assms by (simp add: py_slice_def)
  ultimately show ?thesis by (simp add: chunker_def)
qed

theorem chunker_4500_witness:
  "length (replicate 4500 CHR ''x'') = 4500 \<and>
   chunker 3000 500 (replicate 4500 CHR ''x'') =
     Some [replicate 3000 CHR ''x'', replicate 2000 CHR ''x'']"
proof -
  have h: "length (replicate 4500 CHR ''x'') = 4500" by simp
  from chunker_4500 [OF h] h show ?thesis by simp
qed

subsection \<open>Reassembling the text from its chunks\<close>

lemma reassemble_Cons:
  "reassemble s (c # t) = (if t = [] then c else take s c @ reassemble s t)"
  by (cases t) simp_all

lemma ceil_div_Suc:
  assumes "0 < s" "s < n"
  shows "(n + s - 1) div s = Suc ((n - s + s - 1) div s)"
proof -
  have "n + s - 1 = (n - s + s - 1) + s" using assms by simp
  then have "(n + s - 1) div s = ((n - s + s - 1) + s) div s" by simp
  also have "\<dots> = (n - s + s - 1) div s + 1"
    using assms(1) by (subst div_add_self2) simp_all
  finally show ?thesis by simp
qed

lemma ceil_div_pos:
  assumes "0 < s" "0 < (n::nat)"
  shows "0 < (n + s - 1) div s"
  using assms by (simp add: div_greater_zero_iff)

lemma ceil_div_one:
  assumes "0 < (n::nat)" "n \<le> s"
  shows "(n + s - 1) div s = 1"
proof -
  have "n + s - 1 = (n - 1) + s" using assms by simp
  then have "(n + s - 1) div s = ((n - 1) + s) div s" by simp
  also have "\<dots> = (n - 1) div s + 1"
    using assms by (subst div_add_self2) simp_all
  also have "(n - 1) div s = 0" using assms by simp
  finally show ?thesis by simp
qed

lemma windows_Suc:
  "map (\<lambda>i. take c (drop (i * s) xs)) [0..<Suc k] =
     take c xs # map (\<lambda>i. take c (drop (i * s) (drop s xs))) [0..<k]"
  by (simp add: map_upt_Suc add.commute del: upt_Suc)

lemma reassemble_windows:
  assumes "0 < s" "s \<le> c"
  shows "reassemble s (map (\<lambda>i. take c (drop (i * s) xs)) [0..<(length xs + s - 1) div s]) = xs"
proof (induction "length xs" arbitrary: xs rule: less_induct)
  case less
  consider "xs = []" | "xs \<noteq> []" "length xs \<le> s" | "s < length xs" by linarith
  then show ?case
  proof cases
    case 1
    then show ?thesis using assms by simp
  next
    case 2
    then have "0 < length xs" by simp
    then have "(length xs + s - 1) div s = 1" using 2(2) by (rule ceil_div_one)
    then show ?thesis using 2 assms by simp
  next
    case 3
    let ?k = "(length (drop s xs) + s - 1) div s"
    have k: "(length xs + s - 1) div s = Suc ?k"
      using ceil_div_Suc [OF assms(1) 3] by simp
    have pos: "0 < ?k" using 3 assms by (intro ceil_div_pos) simp_all
    have ih: "reassemble s (map (\<lambda>i. take c (drop (i * s) (drop s xs))) [0..<?k]) = drop s xs"
      using 3 assms by (intro less) simp
    have ne: "map (\<lambda>i. take c (drop (i * s) (drop s xs))) [0..<?k] \<noteq> []"
      using pos by simp
    show ?thesis
      unfolding k windows_Suc
      by (simp only: reassemble_Cons ne if_False ih) (use assms in \<open>simp add: min_absorb1\<close>)
  qed
qed

lemma chunker_windows:
  assumes "0 < overlap" "overlap < chunk_size"
  shows "chunker chunk_size overlap content =
     Some (map (\<lambda>i. take (nat chunk_size) (drop (i * nat (chunk_size - overlap)) content))
             [0..<(length content + nat (chunk_size - overlap) - 1) div nat (chunk_size - overlap)])"
  using assms by (simp add: chunker_closed iterations_nat)

text \<open>
  Claim C5. For every text and every pair with \<open>0 < overlap < chunk_size\<close> the chunker
  returns chunks whose non-overlapping portions (the first \<open>chunk_size - overlap\<close>
  characters of every chunk but the last, then the last chunk) concatenate to the text.
\<close>

theorem chunks_reassemble:
  assumes "0 < overlap" "overlap < chunk_size"
  shows "\<exists>chunks. chunker chunk_size overlap content = Some chunks
           \<and> reassemble (nat (chunk_size - overlap)) chunks = content"
proof -
  have "0 < nat (chunk_size - overlap)" "nat (chunk_size - overlap) \<le> nat chunk_size"
    using assms by simp_all
  from reassemble_windows [OF this, of content] show ?thesis
    by (simp only: chunker_windows [OF assms] option.inject simp_thms ex_simps)
qed

theorem chunks_reassemble_witness:
  "(0::int) < 2 \<and> (2::int) < 5 \<and>
   chunker 5 2 ''abcdefghij'' = Some [''abcde'', ''defgh'', ''ghij'', ''j''] \<and>
   (\<exists>chunks. chunker 5 2 ''abcdefghij'' = Some chunks \<and> reassemble (nat (5 - 2)) chunks = ''abcdefghij'')"
proof -
  have h: "(0::int) < 2" "(2::int) < 5" by simp_all
  have "chunker 5 2 ''abcdefghij'' = Some [''abcde'', ''defgh'', ''ghij'', ''j'']"
    by (simp add: chunker_def chunk_loop.simps py_slice_def)
  with h chunks_reassemble [OF h, of "''abcdefghij''"] show ?thesis by blast
qed

subsection \<open>Documents shorter than a chunk\<close>

text \<open>
  Claim C9, as amended. For \<open>0 < overlap < chunk_size\<close> and a non-empty text: a text of
  at most \<open>chunk_size - overlap\<close> characters gives exactly one chunk, the whole text. A
  longer text that is still shorter than \<open>chunk_size\<close> gives the whole text as its first
  chunk and at least one more chunk; when it has at most \<open>2 * (chunk_size - overlap)\<close>
  characters, as always with the constants 3000 and 500, there is exactly one more chunk,
  the text from offset \<open>chunk_size - overlap\<close> on.
\<close>

theorem short_document_chunks:
  assumes "0 < overlap" "overlap < chunk_size" "content \<noteq> []"
  shows "(int (length content) \<le> chunk_size - overlap \<longrightarrow>
            chunker chunk_size overlap content = Some [content])
       \<and> (chunk_size - overlap < int (length content) \<and> int (length content) < chunk_size \<longrightarrow>
            (\<exists>rest. rest \<noteq> [] \<and> chunker chunk_size overlap content = Some (content # rest)))
       \<and> (chunk_size - overlap < int (length content) \<and> int (length content) < chunk_size
            \<and> int (length content) \<le> 2 * (chunk_size - overlap) \<longrightarrow>
            chunker chunk_size overlap content =
              Some [content, drop (nat (chunk_size - overlap)) content])"
proof -
  let ?s = "nat (chunk_size - overlap)"
  let ?f = "\<lambda>i. take (nat chunk_size) (drop (i * ?s) content)"
  have s: "0 < ?s" using assms by simp
  have n: "0 < length content" using assms by simp
  have one: "chunker chunk_size overlap content = Some [content]"
    if "int (length content) \<le> chunk_size - overlap"
  proof -
    have "length content \<le> ?s" using that assms by linarith
    with n have "(length content + ?s - 1) div ?s = 1" by (rule ceil_div_one)
    moreover have "take (nat chunk_size) content = content" using that assms by simp
    ultimately show ?thesis by (simp add: chunker_windows [OF assms(1,2)])
  qed
  have more: "\<exists>rest. rest \<noteq> [] \<and> chunker chunk_size overlap content = Some (content # rest)"
    if "chunk_size - overlap < int (length content)" "int (length content) < chunk_size"
  proof -
    have l: "?s < length content" using that assms by linarith
    let ?k = "(length content - ?s + ?s - 1) div ?s"
    have k: "(length content + ?s - 1) div ?s = Suc ?k" using s l by (rule ceil_div_Suc)
    have "0 < ?k" using s l by (intro ceil_div_pos) simp_all
    then have "map (\<lambda>i. take (nat chunk_size) (drop (i * ?s) (drop ?s content))) [0..<?k] \<noteq> []"
      by simp
    moreover have "take (nat chunk_size) content = content" using that by simp
    ultimately show ?thesis
      unfolding chunker_windows [OF assms(1,2)] k windows_Suc by simp
  qed
  have two: "chunker chunk_size overlap content = Some [content, drop ?s content]"
    if "chunk_size - overlap < int (length content)" "int (length content) < chunk_size"
       "int (length content) \<le> 2 * (chunk_size - overlap)"
  proof -
    have l: "?s < length content" using that assms by linarith
    let ?k = "(length content - ?s + ?s - 1) div ?s"
    have k: "(length content + ?s - 1) div ?s = Suc ?k" using s l by (rule ceil_div_Suc)
    have "int ?s = chunk_size - overlap" using assms by simp
    then have "int (length content) \<le> int (2 * ?s)" using that(3) by simp
    then have "length content \<le> 2 * ?s" by (simp only: of_nat_le_iff)
    then have "0 < length content - ?s" "length content - ?s \<le> ?s" using l by linarith+
    then have "(length content - ?s + ?s - 1) div ?s = 1" by (rule ceil_div_one)
    moreover have "take (nat chunk_size) content = content" using that by simp
    moreover have "take (nat chunk_size) (drop ?s content) = drop ?s content" using that by simp
    ultimately show ?thesis
      unfolding chunker_windows [OF assms(1,2)] k windows_Suc by simp
  qed
  from one more two show ?thesis by blast
qed

theorem short_document_chunks_witness:
  "chunker 3000 500 ''abc'' = Some [''abc''] \<and>
   chunker 3000 500 (replicate 2600 CHR ''x'') =
     Some [replicate 2600 CHR ''x'', drop 2500 (replicate 2600 CHR ''x'')]"
  using short_document_chunks [of 500 3000 "''abc''"]
        short_document_chunks [of 500 3000 "replicate 2600 CHR ''x''"]
  by simp

text \<open>
  The claim as stated fails: a non-empty text shorter than \<open>chunk_size\<close> but longer
  than \<open>chunk_size - overlap\<close> gives two chunks.
\<close>

theorem short_document_counterexample:
  "''abc'' \<noteq> [] \<and> int (length ''abc'') < 4 \<and> (0::int) < 2 \<and> (2::int) < 4
   \<and> chunker 4 2 ''abc'' = Some [''abc'', ''c'']
   \<and> chunker 4 2 ''abc'' \<noteq> Some [''abc'']
   \<and> replicate 2600 CHR ''x'' \<noteq> [] \<and> int (length (replicate 2600 CHR ''x'')) < 3000
   \<and> chunker 3000 500 (replicate 2600 CHR ''x'') =
        Some [replicate 2600 CHR ''x'', replicate 100 CHR ''x'']
   \<and> chunker 3000 500 (replicate 2600 CHR ''x'') \<noteq> Some [replicate 2600 CHR ''x'']"
  by (simp add: chunker_def chunk_loop.simps py_slice_def)

lemma ceil_div_less_iff:
  assumes "0 < s"
  shows "(i::nat) < (n + s - 1) div s \<longleftrightarrow> i * s < n"
proof -
  have "i < (n + s - 1) div s \<longleftrightarrow> Suc i \<le> (n + s - 1) div s" by auto
  also have "\<dots> \<longleftrightarrow> Suc i * s \<le> n + s - 1"
    using assms by (simp only: less_eq_div_iff_mult_less_eq)
  also have "\<dots> \<longleftrightarrow> i * s < n" using assms by auto
  finally show ?thesis .
qed

lemma window_overlap:
  "drop s (take (s + v) (drop (i * s) xs)) = take v (take (s + v) (drop (Suc i * s) xs))"
  by (simp add: drop_take add.commute min_absorb1)

subsection \<open>Ordered, covering, overlapping windows\<close>

text \<open>
  Claim C3, as amended. For \<open>0 < overlap < chunk_size\<close> the chunker returns a finite
  sequence of chunks: with \<open>s = chunk_size - overlap\<close>, chunk \<open>i\<close> is the window of at
  most \<open>chunk_size\<close> characters that starts at offset \<open>i * s\<close>, inside the text; every
  position of the text lies in some chunk; the part of chunk \<open>i\<close> from offset \<open>s\<close> on is
  the beginning of chunk \<open>i + 1\<close>, and this shared part has
  \<open>min overlap (len - (i + 1) * s)\<close> characters: exactly \<open>overlap\<close> characters whenever
  chunk \<open>i + 1\<close> has at least \<open>overlap\<close> characters, fewer otherwise.
\<close>

theorem chunker_overlapping_windows:
  fixes chunk_size overlap :: int and content :: "'a list"
  defines "s \<equiv> nat (chunk_size - overlap)"
  assumes "0 < overlap" "overlap < chunk_size"
  shows "\<exists>chunks. chunker chunk_size overlap content = Some chunks
     \<and> length chunks = (length content + s - 1) div s
     \<and> (\<forall>i < length chunks. i * s < length content
            \<and> chunks ! i = take (nat chunk_size) (drop (i * s) content))
     \<and> (\<forall>p < length content. \<exists>i < length chunks. i * s \<le> p \<and> p < i * s + length (chunks ! i))
     \<and> (\<forall>i. Suc i < length chunks \<longrightarrow>
            take (nat overlap) (chunks ! Suc i) = drop s (chunks ! i)
          \<and> length (drop s (chunks ! i)) = min (nat overlap) (length content - Suc i * s)
          \<and> (nat overlap \<le> length (chunks ! Suc i) \<longrightarrow>
                overlap_exactly (nat overlap) (chunks ! i) (chunks ! Suc i)))"
proof -
  define c where "c = nat chunk_size"
  define v where "v = nat overlap"
  define k where "k = (length content + s - 1) div s"
  define f where "f = (\<lambda>i. take c (drop (i * s) content))"
  define chunks where "chunks = map f [0..<k]"
  have s: "0 < s" and c: "c = s + v" and v: "0 < v"
    using assms(2,3) by (simp_all add: s_def c_def v_def)
  have ch: "chunker chunk_size overlap content = Some chunks"
    unfolding chunks_def f_def k_def c_def s_def by (rule chunker_windows [OF assms(2,3)])
  have len: "length chunks = k" by (simp add: chunks_def)
  have nth: "chunks ! i = f i" if "i < k" for i using that by (simp add: chunks_def)
  have lt: "i < k \<longleftrightarrow> i * s < length content" for i
    unfolding k_def by (rule ceil_div_less_iff [OF s])
  have lenf: "length (f i) = min c (length content - i * s)" for i
    by (simp add: f_def min.commute)
  have a: "\<forall>i < length chunks. i * s < length content
            \<and> chunks ! i = take c (drop (i * s) content)"
    using lt nth by (simp add: len f_def)
  have b: "\<forall>p < length content. \<exists>i < length chunks. i * s \<le> p \<and> p < i * s + length (chunks ! i)"
  proof (intro allI impI)
    fix p assume p: "p < length content"
    let ?i = "p div s"
    have 1: "?i * s \<le> p" by simp
    have 2: "p < ?i * s + s" using s by (metis add.commute div_mult_mod_eq add_less_cancel_left mod_less_divisor)
    have 3: "?i < k" using le_less_trans [OF 1 p] by (simp only: lt)
    have "p < ?i * s + length (f ?i)" using 1 2 p c by (simp add: lenf)
    with 1 3 show "\<exists>i < length chunks. i * s \<le> p \<and> p < i * s + length (chunks ! i)"
      using nth len by auto
  qed
  have d: "take v (chunks ! Suc i) = drop s (chunks ! i)
          \<and> length (drop s (chunks ! i)) = min v (length content - Suc i * s)
          \<and> (v \<le> length (chunks ! Suc i) \<longrightarrow> overlap_exactly v (chunks ! i) (chunks ! Suc i))"
    if "Suc i < length chunks" for i
  proof -
    have i: "i < k" "Suc i < k" using that len by simp_all
    have ov: "drop s (f i) = take v (f (Suc i))"
      unfolding f_def c by (rule window_overlap)
    have l: "length (drop s (f i)) = min v (length content - Suc i * s)"
      unfolding ov by (simp add: f_def c min.commute min.assoc)
    have e: "overlap_exactly v (f i) (f (Suc i))" if "v \<le> length (f (Suc i))"
    proof -
      have "v \<le> length content - (s + i * s)" using that by (simp add: lenf)
      then have "s + i * s + v \<le> length content" using v by linarith
      then have "length (f i) = c" using c by (simp add: lenf)
      then show ?thesis using that ov c by (simp add: overlap_exactly_def)
    qed
    show ?thesis using ov l e by (simp add: nth i)
  qed
  show ?thesis
    using ch len a b d unfolding k_def c_def v_def by blast
qed

theorem chunker_overlapping_windows_witness:
  "(0::int) < 2 \<and> (2::int) < 5
   \<and> chunker 5 2 ''0123456789ab'' = Some [''01234'', ''34567'', ''6789a'', ''9ab'']
   \<and> (\<exists>chunks. chunker 5 2 ''0123456789ab'' = Some chunks
        \<and> length chunks = (length ''0123456789ab'' + nat (5 - 2) - 1) div nat (5 - 2)
        \<and> (\<forall>i. Suc i < length chunks \<longrightarrow>
              take (nat 2) (chunks ! Suc i) = drop (nat (5 - 2)) (chunks ! i)))"
proof -
  have h: "(0::int) < 2" "(2::int) < 5" by simp_all
  have e: "chunker 5 2 ''0123456789ab'' = Some [''01234'', ''34567'', ''6789a'', ''9ab'']"
    by (simp add: chunker_def chunk_loop.simps py_slice_def)
  from chunker_overlapping_windows [OF h, of "''0123456789ab''"]
  have "\<exists>chunks. chunker 5 2 ''0123456789ab'' = Some chunks
        \<and> length chunks = (length ''0123456789ab'' + nat (5 - 2) - 1) div nat (5 - 2)
        \<and> (\<forall>i. Suc i < length chunks \<longrightarrow>
              take (nat 2) (chunks ! Suc i) = drop (nat (5 - 2)) (chunks ! i))"
    by blast
  with h e show ?thesis by blast
qed

text \<open>
  The claim as stated fails: with the constants 10 and 9 the first two chunks of
  \<^verbatim>\<open>"abc"\<close>, neither of them the final chunk, share two characters and not nine; with the
  constants 3000 and 500 the two chunks of a text of 2600 characters share 100 characters.
\<close>

theorem chunker_overlap_counterexample:
  "(0::int) < 9 \<and> (9::int) < 10
   \<and> chunker 10 9 ''abc'' = Some [''abc'', ''bc'', ''c'']
   \<and> \<not> overlap_exactly (nat 9) ''abc'' ''bc''
   \<and> length (drop (nat (10 - 9)) ''abc'') = 2
   \<and> (0::int) < 500 \<and> (500::int) < 3000
   \<and> chunker 3000 500 (replicate 2600 CHR ''x'') =
        Some [replicate 2600 CHR ''x'', replicate 100 CHR ''x'']
   \<and> \<not> overlap_exactly (nat 500) (replicate 2600 CHR ''x'') (replicate 100 CHR ''x'')"
  by (simp add: chunker_def chunk_loop.simps py_slice_def overlap_exactly_def)

section \<open>Properties of the archive\<close>

lemma update_valon_archive_unfold:
  "update_valon_archive env filename reflection w =
     (case (if path_exists VALON_ARCHIVE w then json_load VALON_ARCHIVE w else Inr default_archive) of
        Inl e \<Rightarrow> (Inl e, w)
      | Inr archive \<Rightarrow>
          (case append_event archive (symbolic_event filename reflection (isoformat env (clock w))) of
             Inl e \<Rightarrow> (Inl e, w)
           | Inr archive' \<Rightarrow>
               (Inr (), py_print [Txt ''[INFO] Updated VALON archive with '', Txt filename]
                          (json_dump VALON_ARCHIVE archive' (w\<lparr>clock := Suc (clock w)\<rparr>)))))"
  by (simp add: update_valon_archive_def and_then_def eval_py_def load_step_def print_step_def
        datetime_now_def symbolic_event_def split: sum.splits)

lemma loaded_archive:
  "(if path_exists VALON_ARCHIVE w then json_load VALON_ARCHIVE w else Inr default_archive) = Inr archive
   \<Longrightarrow> prior_archive w = archive"
  by (auto simp: path_exists_def json_load_def prior_archive_def
           split: if_splits option.splits file_content.splits)

lemma append_event_Inr:
  assumes "append_event archive event = Inr archive'"
  shows "\<exists>kvs events. archive = JObj kvs \<and> map_of kvs ''symbolic_events'' = Some (JArr events)
           \<and> archive' = JObj (AList.update ''symbolic_events'' (JArr (events @ [event])) kvs)"
proof (cases archive)
  case (JObj kvs)
  show ?thesis
  proof (cases "map_of kvs ''symbolic_events''")
    case None
    with JObj assms show ?thesis by (simp add: append_event_def)
  next
    case (Some events)
    with JObj assms show ?thesis
      by (cases events) (simp_all add: append_event_def)
  qed
qed (use assms in \<open>simp_all add: append_event_def\<close>)

lemma append_event_valid:
  assumes "valid_archive archive"
  shows "\<exists>archive'. append_event archive event = Inr archive' \<and> valid_archive archive'"
proof -
  from assms obtain kvs where a: "archive = JObj kvs"
    by (cases archive) (simp_all add: valid_archive_def)
  from assms a obtain events where e: "map_of kvs ''symbolic_events'' = Some (JArr events)"
    by (auto simp: valid_archive_def split: option.splits elim: is_sequence.elims)
  have "append_event archive event =
          Inr (JObj (AList.update ''symbolic_events'' (JArr (events @ [event])) kvs))"
    using a e by (simp add: append_event_def)
  moreover have "valid_archive (JObj (AList.update ''symbolic_events'' (JArr (events @ [event])) kvs))"
    using assms a by (simp add: valid_archive_def update_conv')
  ultimately show ?thesis by simp
qed

lemma valid_default_archive: "valid_archive default_archive"
  by (simp add: valid_archive_def default_archive_def)

lemma update_valon_archive_success:
  assumes "update_valon_archive env filename reflection w = (Inr (), w1)"
  shows "\<exists>kvs events.
           (if path_exists VALON_ARCHIVE w then json_load VALON_ARCHIVE w else Inr default_archive)
              = Inr (JObj kvs)
         \<and> map_of kvs ''symbolic_events'' = Some (JArr events)
         \<and> w1 = py_print [Txt ''[INFO] Updated VALON archive with '', Txt filename]
                  (json_dump VALON_ARCHIVE
                     (JObj (AList.update ''symbolic_events''
                        (JArr (events @ [symbolic_event filename reflection (isoformat env (clock w))]))
                        kvs))
                     (w\<lparr>clock := Suc (clock w)\<rparr>))"
proof -
  let ?load = "if path_exists VALON_ARCHIVE w then json_load VALON_ARCHIVE w else Inr default_archive"
  let ?ev = "symbolic_event filename reflection (isoformat env (clock w))"
  from assms obtain archive where l: "?load = Inr archive"
    by (cases ?load) (simp_all add: update_valon_archive_unfold)
  from assms l obtain archive' where a: "append_event archive ?ev = Inr archive'"
    by (cases "append_event archive ?ev") (simp_all add: update_valon_archive_unfold)
  from append_event_Inr [OF a] obtain kvs events where
    k: "archive = JObj kvs" "map_of kvs ''symbolic_events'' = Some (JArr events)"
       "archive' = JObj (AList.update ''symbolic_events'' (JArr (events @ [?ev])) kvs)"
    by blast
  from assms l a have "w1 = py_print [Txt ''[INFO] Updated VALON archive with '', Txt filename]
          (json_dump VALON_ARCHIVE archive' (w\<lparr>clock := Suc (clock w)\<rparr>))"
    by (simp add: update_valon_archive_unfold)
  with l k show ?thesis by simp
qed

lemma update_valon_archive_run:
  assumes "(if path_exists VALON_ARCHIVE w then json_load VALON_ARCHIVE w else Inr default_archive)
              = Inr (JObj kvs)"
    and "map_of kvs ''symbolic_events'' = Some (JArr events)"
  shows "update_valon_archive env filename reflection w =
           (Inr (), py_print [Txt ''[INFO] Updated VALON archive with '', Txt filename]
                  (json_dump VALON_ARCHIVE
                     (JObj (AList.update ''symbolic_events''
                        (JArr (events @ [symbolic_event filename reflection (isoformat env (clock w))]))
                        kvs))
                     (w\<lparr>clock := Suc (clock w)\<rparr>)))"
  using assms by (simp add: update_valon_archive_unfold append_event_def)

text \<open>
  Claim C6. Whenever the archive file is absent or holds a valid archive,
  \<^verbatim>\<open>update_valon_archive\<close> returns without raising and leaves in the archive file a valid
  archive, with its four named sequences, whose \<^verbatim>\<open>symbolic_events\<close> is the previous
  sequence (the empty one when the file was absent) followed by the new record of
  source, reflection and timestamp.
\<close>

theorem update_valon_archive_valid:
  assumes "files w VALON_ARCHIVE = None
         \<or> (\<exists>archive. files w VALON_ARCHIVE = Some (Json archive) \<and> valid_archive archive)"
  shows "\<exists>w' events archive'.
           update_valon_archive env filename reflection w = (Inr (), w')
         \<and> files w' VALON_ARCHIVE = Some (Json archive')
         \<and> valid_archive archive'
         \<and> py_getitem (prior_archive w) ''symbolic_events'' = Inr (JArr events)
         \<and> py_getitem archive' ''symbolic_events'' =
             Inr (JArr (events @ [symbolic_event filename reflection (isoformat env (clock w))]))"
proof -
  let ?load = "if path_exists VALON_ARCHIVE w then json_load VALON_ARCHIVE w else Inr default_archive"
  let ?ev = "symbolic_event filename reflection (isoformat env (clock w))"
  from assms have l: "?load = Inr (prior_archive w)" and v: "valid_archive (prior_archive w)"
    by (auto simp: path_exists_def json_load_def prior_archive_def valid_default_archive)
  from v obtain kvs where a: "prior_archive w = JObj kvs"
    by (cases "prior_archive w") (simp_all add: valid_archive_def)
  from v a obtain events where e: "map_of kvs ''symbolic_events'' = Some (JArr events)"
    by (auto simp: valid_archive_def split: option.splits elim: is_sequence.elims)
  let ?a' = "JObj (AList.update ''symbolic_events'' (JArr (events @ [?ev])) kvs)"
  have r: "update_valon_archive env filename reflection w =
        (Inr (), py_print [Txt ''[INFO] Updated VALON archive with '', Txt filename]
                  (json_dump VALON_ARCHIVE ?a' (w\<lparr>clock := Suc (clock w)\<rparr>)))"
    using l a e by (intro update_valon_archive_run) simp_all
  have "valid_archive ?a'"
    using v a by (simp add: valid_archive_def update_conv')
  moreover have "py_getitem ?a' ''symbolic_events'' = Inr (JArr (events @ [?ev]))"
    by (simp add: update_conv')
  moreover have "py_getitem (prior_archive w) ''symbolic_events'' = Inr (JArr events)"
    using a e by simp
  ultimately show ?thesis
    unfolding r by (simp add: py_print_def json_dump_def)
qed

theorem update_valon_archive_valid_witness:
  "files empty_world VALON_ARCHIVE = None \<and>
   (\<exists>w' archive'.
       update_valon_archive example_env ''manual.pdf'' example_reflection empty_world = (Inr (), w')
     \<and> files w' VALON_ARCHIVE = Some (Json archive')
     \<and> valid_archive archive'
     \<and> py_getitem archive' ''symbolic_events'' =
         Inr (JArr [symbolic_event ''manual.pdf'' example_reflection (isoformat example_env 0)]))"
proof -
  have h: "files empty_world VALON_ARCHIVE = None" by (simp add: empty_world_def)
  have p: "py_getitem (prior_archive empty_world) ''symbolic_events'' = Inr (JArr [])"
    by (simp add: prior_archive_def empty_world_def default_archive_def)
  have c: "clock empty_world = 0" by (simp add: empty_world_def)
  from update_valon_archive_valid [of empty_world example_env "''manual.pdf''" example_reflection]
       h p c
  show ?thesis by auto
qed

lemma update_keys_present:
  assumes "map_of kvs k = Some v"
  shows "map fst (AList.update k v' kvs) = map fst kvs"
proof -
  from assms have "k \<in> set (map fst kvs)"
    by (metis map_of_eq_None_iff option.distinct(1) set_map)
  then show ?thesis by (simp add: update_keys)
qed

text \<open>
  Claim C10. Whenever \<^verbatim>\<open>update_valon_archive\<close> returns, the archive it wrote has the
  keys of the archive it started from, in the same order; every key other than
  \<^verbatim>\<open>symbolic_events\<close> is bound as before, so the three other sequences are unchanged;
  \<^verbatim>\<open>symbolic_events\<close> is the previous list followed by exactly one new record; no other
  file is touched; and a second call for the same source returns as well and leaves
  both records, one after the other, at the end of \<^verbatim>\<open>symbolic_events\<close>.
\<close>

theorem update_valon_archive_frame:
  assumes "update_valon_archive env filename reflection w = (Inr (), w1)"
  shows "\<exists>kvs kvs1 events.
           prior_archive w = JObj kvs
         \<and> files w1 VALON_ARCHIVE = Some (Json (JObj kvs1))
         \<and> map fst kvs1 = map fst kvs
         \<and> (\<forall>key. key \<noteq> ''symbolic_events'' \<longrightarrow> map_of kvs1 key = map_of kvs key)
         \<and> map_of kvs ''symbolic_events'' = Some (JArr events)
         \<and> map_of kvs1 ''symbolic_events'' =
             Some (JArr (events @ [symbolic_event filename reflection (isoformat env (clock w))]))
         \<and> (\<forall>path. path \<noteq> VALON_ARCHIVE \<longrightarrow> files w1 path = files w path)
         \<and> (\<exists>w2 kvs2.
               update_valon_archive env filename reflection w1 = (Inr (), w2)
             \<and> files w2 VALON_ARCHIVE = Some (Json (JObj kvs2))
             \<and> map_of kvs2 ''symbolic_events'' =
                 Some (JArr (events @
                   [symbolic_event filename reflection (isoformat env (clock w)),
                    symbolic_event filename reflection (isoformat env (Suc (clock w)))])))"
proof -
  let ?ev = "symbolic_event filename reflection (isoformat env (clock w))"
  let ?ev2 = "symbolic_event filename reflection (isoformat env (Suc (clock w)))"
  from update_valon_archive_success [OF assms] obtain kvs events where
    l: "(if path_exists VALON_ARCHIVE w then json_load VALON_ARCHIVE w else Inr default_archive)
          = Inr (JObj kvs)"
    and e: "map_of kvs ''symbolic_events'' = Some (JArr events)"
    and w1: "w1 = py_print [Txt ''[INFO] Updated VALON archive with '', Txt filename]
                  (json_dump VALON_ARCHIVE
                     (JObj (AList.update ''symbolic_events'' (JArr (events @ [?ev])) kvs))
                     (w\<lparr>clock := Suc (clock w)\<rparr>))"
    by blast
  let ?kvs1 = "AList.update ''symbolic_events'' (JArr (events @ [?ev])) kvs"
  have p: "prior_archive w = JObj kvs" using l by (rule loaded_archive)
  have f1: "files w1 VALON_ARCHIVE = Some (Json (JObj ?kvs1))"
    by (simp add: w1 py_print_def json_dump_def)
  have keys: "map fst ?kvs1 = map fst kvs" using e by (rule update_keys_present)
  have others: "\<forall>key. key \<noteq> ''symbolic_events'' \<longrightarrow> map_of ?kvs1 key = map_of kvs key"
    by (simp add: update_conv')
  have ev1: "map_of ?kvs1 ''symbolic_events'' = Some (JArr (events @ [?ev]))"
    by (simp add: update_conv')
  have paths: "\<forall>path. path \<noteq> VALON_ARCHIVE \<longrightarrow> files w1 path = files w path"
    by (simp add: w1 py_print_def json_dump_def)
  have c1: "clock w1 = Suc (clock w)" by (simp add: w1 py_print_def json_dump_def)
  have l1: "(if path_exists VALON_ARCHIVE w1 then json_load VALON_ARCHIVE w1 else Inr default_archive)
          = Inr (JObj ?kvs1)"
    using f1 by (simp add: path_exists_def json_load_def)
  let ?kvs2 = "AList.update ''symbolic_events'' (JArr ((events @ [?ev]) @ [?ev2])) ?kvs1"
  from update_valon_archive_run [OF l1 ev1, of env filename reflection]
  have r2: "update_valon_archive env filename reflection w1 =
      (Inr (), py_print [Txt ''[INFO] Updated VALON archive with '', Txt filename]
                  (json_dump VALON_ARCHIVE (JObj ?kvs2) (w1\<lparr>clock := Suc (clock w1)\<rparr>)))"
    by (simp only: c1)
  have second: "\<exists>w2 kvs2.
               update_valon_archive env filename reflection w1 = (Inr (), w2)
             \<and> files w2 VALON_ARCHIVE = Some (Json (JObj kvs2))
             \<and> map_of kvs2 ''symbolic_events'' = Some (JArr (events @ [?ev, ?ev2]))"
    unfolding r2 by (simp add: py_print_def json_dump_def update_conv')
  from p f1 keys others e ev1 paths second show ?thesis by blast
qed

theorem update_valon_archive_frame_witness:
  "(\<exists>w1. update_valon_archive example_env ''manual.pdf'' example_reflection empty_world = (Inr (), w1)
      \<and> (\<exists>kvs1. files w1 VALON_ARCHIVE = Some (Json (JObj kvs1))
            \<and> map fst kvs1 = [''symbolic_events'', ''drift_logs'', ''reasoning_blends'', ''dream_logs'']
            \<and> map_of kvs1 ''drift_logs'' = Some (JArr [])
            \<and> map_of kvs1 ''symbolic_events'' =
                 Some (JArr [symbolic_event ''manual.pdf'' example_reflection (isoformat example_env 0)]))
      \<and> (\<exists>w2 kvs2.
            update_valon_archive example_env ''manual.pdf'' example_reflection w1 = (Inr (), w2)
          \<and> files w2 VALON_ARCHIVE = Some (Json (JObj kvs2))
          \<and> map_of kvs2 ''symbolic_events'' =
               Some (JArr [symbolic_event ''manual.pdf'' example_reflection (isoformat example_env 0),
                           symbolic_event ''manual.pdf'' example_reflection (isoformat example_env (Suc 0))])))"
proof -
  obtain w1 where
    h: "update_valon_archive example_env ''manual.pdf'' example_reflection empty_world = (Inr (), w1)"
    by (simp add: update_valon_archive_unfold path_exists_def empty_world_def default_archive_def
          append_event_def)
  have p: "prior_archive empty_world =
             JObj [(''symbolic_events'', JArr []), (''drift_logs'', JArr []),
                   (''reasoning_blends'', JArr []), (''dream_logs'', JArr [])]"
    by (simp add: prior_archive_def empty_world_def default_archive_def)
  have c: "clock empty_world = 0" by (simp add: empty_world_def)
  from update_valon_archive_frame [OF h] obtain kvs kvs1 events w2 kvs2 where
    k: "prior_archive empty_world = JObj kvs"
    and f1: "files w1 VALON_ARCHIVE = Some (Json (JObj kvs1))"
    and keys: "map fst kvs1 = map fst kvs"
    and others: "\<forall>key. key \<noteq> ''symbolic_events'' \<longrightarrow> map_of kvs1 key = map_of kvs key"
    and e: "map_of kvs ''symbolic_events'' = Some (JArr events)"
    and e1: "map_of kvs1 ''symbolic_events'' =
             Some (JArr (events @ [symbolic_event ''manual.pdf'' example_reflection
                                     (isoformat example_env (clock empty_world))]))"
    and r2: "update_valon_archive example_env ''manual.pdf'' example_reflection w1 = (Inr (), w2)"
    and f2: "files w2 VALON_ARCHIVE = Some (Json (JObj kvs2))"
    and e2: "map_of kvs2 ''symbolic_events'' =
                 Some (JArr (events @
                   [symbolic_event ''manual.pdf'' example_reflection (isoformat example_env (clock empty_world)),
                    symbolic_event ''manual.pdf'' example_reflection
                      (isoformat example_env (Suc (clock empty_world)))]))"
    by (elim exE conjE) (rule that)
  from k p have kvs: "kvs = [(''symbolic_events'', JArr []), (''drift_logs'', JArr []),
                   (''reasoning_blends'', JArr []), (''dream_logs'', JArr [])]" by simp
  from e kvs have ev: "events = []" by simp
  have d: "map_of kvs1 ''drift_logs'' = Some (JArr [])"
    using others [rule_format, of "''drift_logs''"] kvs by simp
  have ks: "map fst kvs1 = [''symbolic_events'', ''drift_logs'', ''reasoning_blends'', ''dream_logs'']"
    using keys kvs by simp
  have e1': "map_of kvs1 ''symbolic_events'' =
      Some (JArr [symbolic_event ''manual.pdf'' example_reflection (isoformat example_env 0)])"
    using e1 by (simp only: ev c append_Nil)
  have e2': "map_of kvs2 ''symbolic_events'' =
      Some (JArr [symbolic_event ''manual.pdf'' example_reflection (isoformat example_env 0),
                  symbolic_event ''manual.pdf'' example_reflection (isoformat example_env (Suc 0))])"
    using e2 by (simp only: ev c append_Nil)
  have A: "\<exists>kvs1. files w1 VALON_ARCHIVE = Some (Json (JObj kvs1))
            \<and> map fst kvs1 = [''symbolic_events'', ''drift_logs'', ''reasoning_blends'', ''dream_logs'']
            \<and> map_of kvs1 ''drift_logs'' = Some (JArr [])
            \<and> map_of kvs1 ''symbolic_events'' =
                 Some (JArr [symbolic_event ''manual.pdf'' example_reflection (isoformat example_env 0)])"
    using f1 ks d e1' by (intro exI [of _ kvs1] conjI)
  have B: "\<exists>w2 kvs2.
            update_valon_archive example_env ''manual.pdf'' example_reflection w1 = (Inr (), w2)
          \<and> files w2 VALON_ARCHIVE = Some (Json (JObj kvs2))
          \<and> map_of kvs2 ''symbolic_events'' =
               Some (JArr [symbolic_event ''manual.pdf'' example_reflection (isoformat example_env 0),
                           symbolic_event ''manual.pdf'' example_reflection (isoformat example_env (Suc 0))])"
    using r2 f2 e2' by (intro exI [of _ w2] exI [of _ kvs2] conjI)
  show ?thesis using h A B by - (rule exI [of _ w1], intro conjI)
qed

section \<open>Properties of the comparison\<close>

lemma only_printsI:
  assumes "\<And>w. \<exists>out. snd (m w) = w\<lparr>stdout := stdout w @ out\<rparr>"
  shows "only_prints m"
  using assms by (simp add: only_prints_def)

lemma only_prints_eval_py: "only_prints (eval_py r)"
proof (rule only_printsI)
  fix w :: world
  have "snd (eval_py r w) = w\<lparr>stdout := stdout w @ []\<rparr>" by (simp add: eval_py_def)
  then show "\<exists>out. snd (eval_py r w) = w\<lparr>stdout := stdout w @ out\<rparr>" ..
qed

lemma only_prints_load_step: "only_prints (load_step path)"
proof (rule only_printsI)
  fix w :: world
  have "snd (load_step path w) = w\<lparr>stdout := stdout w @ []\<rparr>" by (simp add: load_step_def)
  then show "\<exists>out. snd (load_step path w) = w\<lparr>stdout := stdout w @ out\<rparr>" ..
qed

lemma only_prints_print_step: "only_prints (print_step line)"
proof (rule only_printsI)
  fix w :: world
  have "snd (print_step line w) = w\<lparr>stdout := stdout w @ [line]\<rparr>"
    by (simp add: print_step_def py_print_def)
  then show "\<exists>out. snd (print_step line w) = w\<lparr>stdout := stdout w @ out\<rparr>" ..
qed

lemma only_prints_and_then:
  assumes "only_prints m" and "\<And>x. only_prints (f x)"
  shows "only_prints (and_then m f)"
proof (rule only_printsI)
  fix w :: world
  from assms(1) obtain out1 where 1: "snd (m w) = w\<lparr>stdout := stdout w @ out1\<rparr>"
    unfolding only_prints_def by blast
  show "\<exists>out. snd (and_then m f w) = w\<lparr>stdout := stdout w @ out\<rparr>"
  proof (cases "fst (m w)")
    case (Inl e)
    then have "snd (and_then m f w) = snd (m w)"
      by (cases "m w") (simp add: and_then_def)
    with 1 show ?thesis by auto
  next
    case (Inr x)
    then have a: "and_then m f w = f x (snd (m w))"
      by (cases "m w") (simp add: and_then_def)
    from assms(2) obtain out2 where
      "snd (f x (snd (m w))) = (snd (m w))\<lparr>stdout := stdout (snd (m w)) @ out2\<rparr>"
      unfolding only_prints_def by blast
    then have "snd (and_then m f w) = w\<lparr>stdout := stdout w @ (out1 @ out2)\<rparr>"
      by (simp add: a 1)
    then show ?thesis ..
  qed
qed

lemma only_prints_compare_body: "only_prints (compare_body original_file gemini_file)"
  unfolding compare_body_def
  by (intro only_prints_and_then only_prints_load_step only_prints_print_step only_prints_eval_py)

lemma compare_body_first:
  assumes "json_load original_file w = Inl e"
  shows "compare_body original_file gemini_file w = (Inl e, w)"
  using assms by (simp add: compare_body_def and_then_def load_step_def)

lemma compare_body_second:
  assumes "json_load original_file w = Inr j" "json_load gemini_file w = Inl e"
  shows "compare_body original_file gemini_file w = (Inl e, w)"
  using assms by (simp add: compare_body_def and_then_def load_step_def)

lemma compare_body_result:
  "\<exists>r out. compare_body original_file gemini_file w = (r, w\<lparr>stdout := stdout w @ out\<rparr>)"
proof -
  from only_prints_compare_body [of original_file gemini_file]
  obtain out where o: "snd (compare_body original_file gemini_file w) = w\<lparr>stdout := stdout w @ out\<rparr>"
    unfolding only_prints_def by blast
  have "compare_body original_file gemini_file w =
          (fst (compare_body original_file gemini_file w), w\<lparr>stdout := stdout w @ out\<rparr>)"
    by (simp only: o [symmetric] prod.collapse)
  then show ?thesis by - (intro exI, assumption)
qed

lemma compare_results_total:
  "\<exists>ok out. compare_results original_file gemini_file w = (Inr ok, w\<lparr>stdout := stdout w @ out\<rparr>)"
proof -
  from compare_body_result [of original_file gemini_file w]
  obtain r out where c: "compare_body original_file gemini_file w = (r, w\<lparr>stdout := stdout w @ out\<rparr>)"
    by (elim exE)
  show ?thesis
  proof (cases r)
    case (Inr ok)
    with c have "compare_results original_file gemini_file w = (Inr ok, w\<lparr>stdout := stdout w @ out\<rparr>)"
      by (simp add: compare_results_def)
    then show ?thesis by - (intro exI, assumption)
  next
    case (Inl e)
    with c have "compare_results original_file gemini_file w =
        (Inr False, w\<lparr>stdout := stdout w @ (out @ [[Txt ''[ERROR] Failed to compare results: '', Exc e]])\<rparr>)"
      by (simp add: compare_results_def py_print_def)
    then show ?thesis by - (intro exI, assumption)
  qed
qed

text \<open>
  Claim C8. For every pair of paths and every world, \<^verbatim>\<open>compare_results\<close> returns a boolean
  and never an exception, and the world it leaves differs from the one it started in
  only by lines appended to the standard output: no file, and so neither record, is
  changed. When the first file cannot be loaded (it is missing, unreadable, or not JSON),
  or the first can and the second cannot, the result is False and the only line printed
  is the diagnostic that carries the exception.
\<close>

theorem compare_results_reports:
  "\<exists>ok out.
      compare_results original_file gemini_file w = (Inr ok, w\<lparr>stdout := stdout w @ out\<rparr>)
    \<and> (\<forall>e. json_load original_file w = Inl e \<longrightarrow>
           \<not> ok \<and> out = [[Txt ''[ERROR] Failed to compare results: '', Exc e]])
    \<and> (\<forall>j e. json_load original_file w = Inr j \<and> json_load gemini_file w = Inl e \<longrightarrow>
           \<not> ok \<and> out = [[Txt ''[ERROR] Failed to compare results: '', Exc e]])"
proof -
  let ?line = "\<lambda>e. [Txt ''[ERROR] Failed to compare results: '', Exc e]"
  from only_prints_compare_body [of original_file gemini_file]
  obtain out1 where b: "snd (compare_body original_file gemini_file w) = w\<lparr>stdout := stdout w @ out1\<rparr>"
    unfolding only_prints_def by blast
  show ?thesis
  proof (cases "fst (compare_body original_file gemini_file w)")
    case (Inr r)
    then have c: "compare_body original_file gemini_file w = (Inr r, w\<lparr>stdout := stdout w @ out1\<rparr>)"
      using b by (cases "compare_body original_file gemini_file w") simp
    then have "compare_results original_file gemini_file w = (Inr r, w\<lparr>stdout := stdout w @ out1\<rparr>)"
      by (simp add: compare_results_def)
    moreover have "json_load original_file w \<noteq> Inl e" for e
      using c compare_body_first [of original_file w e gemini_file] by auto
    moreover have "\<not> (json_load original_file w = Inr j \<and> json_load gemini_file w = Inl e)" for j e
      using c compare_body_second [of original_file w j gemini_file e] by auto
    ultimately show ?thesis by blast
  next
    case (Inl e')
    then have c: "compare_body original_file gemini_file w = (Inl e', w\<lparr>stdout := stdout w @ out1\<rparr>)"
      using b by (cases "compare_body original_file gemini_file w") simp
    then have r: "compare_results original_file gemini_file w =
        (Inr False, w\<lparr>stdout := stdout w @ (out1 @ [?line e'])\<rparr>)"
      by (simp add: compare_results_def py_print_def)
    have 1: "e = e' \<and> out1 = []" if "json_load original_file w = Inl e" for e
    proof -
      from compare_body_first [OF that, of gemini_file] c
      have "e = e'" and "w = w\<lparr>stdout := stdout w @ out1\<rparr>" by simp_all
      from this(2) have "stdout w = stdout (w\<lparr>stdout := stdout w @ out1\<rparr>)" by (rule arg_cong)
      also have "\<dots> = stdout w @ out1" by simp
      finally have "stdout w = stdout w @ out1" .
      with \<open>e = e'\<close> show ?thesis by simp
    qed
    have 2: "e = e' \<and> out1 = []"
      if "json_load original_file w = Inr j \<and> json_load gemini_file w = Inl e" for j e
    proof -
      from that compare_body_second [of original_file w j gemini_file e] c
      have "e = e'" and "w = w\<lparr>stdout := stdout w @ out1\<rparr>" by simp_all
      from this(2) have "stdout w = stdout (w\<lparr>stdout := stdout w @ out1\<rparr>)" by (rule arg_cong)
      also have "\<dots> = stdout w @ out1" by simp
      finally have "stdout w = stdout w @ out1" .
      with \<open>e = e'\<close> show ?thesis by simp
    qed
    show ?thesis
      unfolding r using 1 2 by (intro exI [of _ False] exI [of _ "out1 @ [?line e']"]) auto
  qed
qed

lemma main_compare_reports:
  "\<exists>out. main_compare compare w = (Inr (), w\<lparr>stdout := stdout w @ out\<rparr>)"
proof (cases "path_exists (replace compare ''_gemini.json'' ''.json'') w \<and> path_exists compare w")
  case True
  from compare_results_total [of "replace compare ''_gemini.json'' ''.json''" compare w]
  obtain ok out where "compare_results (replace compare ''_gemini.json'' ''.json'') compare w
      = (Inr ok, w\<lparr>stdout := stdout w @ out\<rparr>)" by (elim exE)
  with True have "main_compare compare w = (Inr (), w\<lparr>stdout := stdout w @ out\<rparr>)"
    by (simp add: main_compare_def Let_def and_then_def eval_py_def)
  then show ?thesis by - (intro exI, assumption)
next
  case False
  then have "main_compare compare w =
      print_step [Txt ''[ERROR] Cannot compare - missing files: '',
                  Txt (replace compare ''_gemini.json'' ''.json''), Txt '' or '', Txt compare] w"
    unfolding main_compare_def Let_def by (rule if_not_P)
  then have "main_compare compare w = (Inr (), w\<lparr>stdout := stdout w @
      [[Txt ''[ERROR] Cannot compare - missing files: '',
        Txt (replace compare ''_gemini.json'' ''.json''), Txt '' or '', Txt compare]]\<rparr>)"
    by (simp add: print_step_def py_print_def)
  then show ?thesis by - (intro exI, assumption)
qed

theorem compare_results_reports_witness:
  "json_load ''memory_vault/modi/manual.json'' example_world = Inr (JObj [(''summary'', JStr ''text'')])
   \<and> json_load ''memory_vault/modi/manual_gemini.json'' example_world = Inl PermissionError
   \<and> compare_results ''memory_vault/modi/manual.json'' ''memory_vault/modi/manual_gemini.json''
        example_world =
       (Inr False, example_world\<lparr>stdout :=
          [[Txt ''[ERROR] Failed to compare results: '', Exc PermissionError]]\<rparr>)
   \<and> json_load ''memory_vault/modi/other.json'' example_world = Inl FileNotFoundError
   \<and> compare_results ''memory_vault/modi/other.json'' ''memory_vault/modi/other_gemini.json''
        example_world =
       (Inr False, example_world\<lparr>stdout :=
          [[Txt ''[ERROR] Failed to compare results: '', Exc FileNotFoundError]]\<rparr>)"
proof -
  let ?j = "JObj [(''summary'', JStr ''text'')]"
  have l1: "json_load ''memory_vault/modi/manual.json'' example_world = Inr ?j"
    by (simp add: json_load_def example_world_def)
  have l2: "json_load ''memory_vault/modi/manual_gemini.json'' example_world = Inl PermissionError"
    by (simp add: json_load_def example_world_def)
  have l3: "json_load ''memory_vault/modi/other.json'' example_world = Inl FileNotFoundError"
    by (simp add: json_load_def example_world_def)
  have s: "stdout example_world = []" by (simp add: example_world_def)
  from compare_results_reports [of "''memory_vault/modi/manual.json''"
         "''memory_vault/modi/manual_gemini.json''" example_world]
  obtain ok out where
    r: "compare_results ''memory_vault/modi/manual.json'' ''memory_vault/modi/manual_gemini.json''
          example_world = (Inr ok, example_world\<lparr>stdout := stdout example_world @ out\<rparr>)"
    and b: "\<forall>j e. json_load ''memory_vault/modi/manual.json'' example_world = Inr j
              \<and> json_load ''memory_vault/modi/manual_gemini.json'' example_world = Inl e \<longrightarrow>
           \<not> ok \<and> out = [[Txt ''[ERROR] Failed to compare results: '', Exc e]]"
    by (elim exE conjE) (rule that)
  from b [rule_format, OF conjI [OF l1 l2]]
  have "\<not> ok \<and> out = [[Txt ''[ERROR] Failed to compare results: '', Exc PermissionError]]" .
  with r s have c1: "compare_results ''memory_vault/modi/manual.json''
        ''memory_vault/modi/manual_gemini.json'' example_world =
       (Inr False, example_world\<lparr>stdout :=
          [[Txt ''[ERROR] Failed to compare results: '', Exc PermissionError]]\<rparr>)"
    by simp
  from compare_results_reports [of "''memory_vault/modi/other.json''"
         "''memory_vault/modi/other_gemini.json''" example_world]
  obtain ok' out' where
    r': "compare_results ''memory_vault/modi/other.json'' ''memory_vault/modi/other_gemini.json''
          example_world = (Inr ok', example_world\<lparr>stdout := stdout example_world @ out'\<rparr>)"
    and a': "\<forall>e. json_load ''memory_vault/modi/other.json'' example_world = Inl e \<longrightarrow>
           \<not> ok' \<and> out' = [[Txt ''[ERROR] Failed to compare results: '', Exc e]]"
    by (elim exE conjE) (rule that)
  from a' [rule_format, OF l3] r' s
  have c2: "compare_results ''memory_vault/modi/other.json'' ''memory_vault/modi/other_gemini.json''
        example_world =
       (Inr False, example_world\<lparr>stdout :=
          [[Txt ''[ERROR] Failed to compare results: '', Exc FileNotFoundError]]\<rparr>)"
    by simp
  from l1 l2 c1 l3 c2 show ?thesis by (intro conjI)
qed

section \<open>Properties of the summarising loop\<close>

lemma fst_query_chatgpt:
  "fst (query_chatgpt env prompt w) =
     (case chat_completion env prompt of Inr content \<Rightarrow> content | Inl e \<Rightarrow> ''Error: '' @ e)"
  by (simp add: query_chatgpt_def Let_def split: sum.splits)

lemma calls_query_chatgpt:
  "calls (snd (query_chatgpt env prompt w)) = calls w @ [QueryChatGPT prompt]"
  by (simp add: query_chatgpt_def Let_def py_print_def split: sum.splits)

lemma files_query_chatgpt:
  "files (snd (query_chatgpt env prompt w)) = files w"
  by (simp add: query_chatgpt_def Let_def py_print_def split: sum.splits)

lemma summarize_chunk_fallback:
  assumes "is_error_response (analyze_document_chunk env chunk i n)"
  shows "fst (summarize_chunk env i n chunk w) =
           ''--- Chunk '' @ str_nat (i + 1) @ '' ---'' @ [CHR 0x0A]
             @ strip (fst (query_chatgpt env (chatgpt_prompt chunk) w'))"
    and "calls (snd (summarize_chunk env i n chunk w)) =
           calls w @ [AnalyzeDocumentChunk chunk i n, QueryChatGPT (chatgpt_prompt chunk)]"
  using assms
  by (simp_all add: summarize_chunk_def Let_def split_beta fst_query_chatgpt calls_query_chatgpt
        py_print_def)

lemma summarize_chunk_kept:
  assumes "\<not> is_error_response (analyze_document_chunk env chunk i n)"
  shows "fst (summarize_chunk env i n chunk w) =
           ''--- Chunk '' @ str_nat (i + 1) @ '' ---'' @ [CHR 0x0A]
             @ strip (analyze_document_chunk env chunk i n)"
    and "calls (snd (summarize_chunk env i n chunk w)) =
           calls w @ [AnalyzeDocumentChunk chunk i n]"
  using assms
  by (simp_all add: summarize_chunk_def Let_def split_beta py_print_def)

lemma fst_summarize_chunk_world:
  "fst (summarize_chunk env i n chunk w) = fst (summarize_chunk env i n chunk w')"
proof (cases "is_error_response (analyze_document_chunk env chunk i n)")
  case True
  then show ?thesis
    by (simp add: summarize_chunk_fallback(1) [of env chunk i n _ w])
next
  case False
  then show ?thesis by (simp add: summarize_chunk_kept(1))
qed

lemma summarize_loop_summaries:
  "fst (summarize_loop env i n chunks summaries w) =
     summaries @ map (\<lambda>j. fst (summarize_chunk env (i + j) n (chunks ! j) w0)) [0..<length chunks]"
proof (induction chunks arbitrary: i summaries w)
  case Nil
  show ?case by simp
next
  case (Cons chunk rest)
  obtain s w' where c: "summarize_chunk env i n chunk w = (s, w')"
    by (cases "summarize_chunk env i n chunk w")
  have s: "s = fst (summarize_chunk env i n chunk w0)"
    using c fst_summarize_chunk_world [of env i n chunk w w0] by simp
  show ?case
    by (simp add: c Cons.IH [of "Suc i"] s map_upt_Suc del: upt_Suc)
qed

text \<open>
  Claim C1, as amended. For every chunk of the loop: when the response of the primary
  provider contains \<^verbatim>\<open>"Error:"\<close> or \<^verbatim>\<open>"timed out"\<close>, the summary of the chunk is built from
  the answer of \<^verbatim>\<open>query_chatgpt\<close> to the prompt made from the same chunk, whatever that
  answer is, and both providers have been called; when the response contains neither,
  and this includes a response of the form \<^verbatim>\<open>"[ERROR: ...]"\<close>, the response of the primary
  provider is kept and the secondary provider is not called. There is one summary per
  chunk.
\<close>

theorem fallback_on_error_marker:
  assumes "i < length chunks"
  shows "(is_error_response (analyze_document_chunk env (chunks ! i) i (length chunks)) \<longrightarrow>
            fst (summarize_loop env 0 (length chunks) chunks [] w) ! i =
              ''--- Chunk '' @ str_nat (i + 1) @ '' ---'' @ [CHR 0x0A]
                @ strip (fst (query_chatgpt env (chatgpt_prompt (chunks ! i)) w))
          \<and> calls (snd (summarize_chunk env i (length chunks) (chunks ! i) w)) =
              calls w @ [AnalyzeDocumentChunk (chunks ! i) i (length chunks),
                         QueryChatGPT (chatgpt_prompt (chunks ! i))])
       \<and> (\<not> is_error_response (analyze_document_chunk env (chunks ! i) i (length chunks)) \<longrightarrow>
            fst (summarize_loop env 0 (length chunks) chunks [] w) ! i =
              ''--- Chunk '' @ str_nat (i + 1) @ '' ---'' @ [CHR 0x0A]
                @ strip (analyze_document_chunk env (chunks ! i) i (length chunks))
          \<and> calls (snd (summarize_chunk env i (length chunks) (chunks ! i) w)) =
              calls w @ [AnalyzeDocumentChunk (chunks ! i) i (length chunks)])
       \<and> length (fst (summarize_loop env 0 (length chunks) chunks [] w)) = length chunks"
proof -
  have n: "fst (summarize_loop env 0 (length chunks) chunks [] w) ! i =
             fst (summarize_chunk env i (length chunks) (chunks ! i) w)"
    using assms by (simp add: summarize_loop_summaries [of env 0 _ chunks "[]" w w])
  have l: "length (fst (summarize_loop env 0 (length chunks) chunks [] w)) = length chunks"
    by (simp add: summarize_loop_summaries [of env 0 _ chunks "[]" w w])
  let ?r = "analyze_document_chunk env (chunks ! i) i (length chunks)"
  have A: "is_error_response ?r \<longrightarrow>
            fst (summarize_loop env 0 (length chunks) chunks [] w) ! i =
              ''--- Chunk '' @ str_nat (i + 1) @ '' ---'' @ [CHR 0x0A]
                @ strip (fst (query_chatgpt env (chatgpt_prompt (chunks ! i)) w))
          \<and> calls (snd (summarize_chunk env i (length chunks) (chunks ! i) w)) =
              calls w @ [AnalyzeDocumentChunk (chunks ! i) i (length chunks),
                         QueryChatGPT (chatgpt_prompt (chunks ! i))]"
  proof (intro impI conjI)
    assume e: "is_error_response ?r"
    show "fst (summarize_loop env 0 (length chunks) chunks [] w) ! i =
              ''--- Chunk '' @ str_nat (i + 1) @ '' ---'' @ [CHR 0x0A]
                @ strip (fst (query_chatgpt env (chatgpt_prompt (chunks ! i)) w))"
      unfolding n by (rule summarize_chunk_fallback(1) [OF e])
    show "calls (snd (summarize_chunk env i (length chunks) (chunks ! i) w)) =
              calls w @ [AnalyzeDocumentChunk (chunks ! i) i (length chunks),
                         QueryChatGPT (chatgpt_prompt (chunks ! i))]"
      by (rule summarize_chunk_fallback(2) [OF e])
  qed
  have B: "\<not> is_error_response ?r \<longrightarrow>
            fst (summarize_loop env 0 (length chunks) chunks [] w) ! i =
              ''--- Chunk '' @ str_nat (i + 1) @ '' ---'' @ [CHR 0x0A] @ strip ?r
          \<and> calls (snd (summarize_chunk env i (length chunks) (chunks ! i) w)) =
              calls w @ [AnalyzeDocumentChunk (chunks ! i) i (length chunks)]"
  proof (intro impI conjI)
    assume e: "\<not> is_error_response ?r"
    show "fst (summarize_loop env 0 (length chunks) chunks [] w) ! i =
              ''--- Chunk '' @ str_nat (i + 1) @ '' ---'' @ [CHR 0x0A] @ strip ?r"
      unfolding n by (rule summarize_chunk_kept(1) [OF e])
    show "calls (snd (summarize_chunk env i (length chunks) (chunks ! i) w)) =
              calls w @ [AnalyzeDocumentChunk (chunks ! i) i (length chunks)]"
      by (rule summarize_chunk_kept(2) [OF e])
  qed
  from A B l show ?thesis by (intro conjI)
qed

lemma char_of_49: "char_of (49::nat) = CHR ''1''"
  by code_simp

lemma str_nat_1: "str_nat (Suc 0) = ''1''"
  by (simp add: str_nat.simps char_of_49)

lemma strip_examples:
  "strip ''[ERROR: API request failed - 500]'' = ''[ERROR: API request failed - 500]''"
  "strip ''Error: Connection error.'' = ''Error: Connection error.''"
  by (simp_all add: strip_def isspace_def)

lemma is_error_response_examples:
  "\<not> is_error_response ''[ERROR: API request failed - 500]''"
  "is_error_response ''Error: request timed out''"
  by (simp_all add: is_error_response_def)

text \<open>
  The claim as stated fails: the response \<^verbatim>\<open>"[ERROR: API request failed - 500]"\<close> of the
  primary provider holds no recognised marker, is kept as the summary of the chunk, and
  the secondary provider is never called.
\<close>

theorem fallback_counterexample:
  "analyze_document_chunk example_env ''text'' 0 1 = ''[ERROR: API request failed - 500]''
   \<and> fst (summarize_loop example_env 0 1 [''text''] [] empty_world) =
       [''--- Chunk 1 ---'' @ [CHR 0x0A] @ ''[ERROR: API request failed - 500]'']
   \<and> calls (snd (summarize_loop example_env 0 1 [''text''] [] empty_world)) =
       [AnalyzeDocumentChunk ''text'' 0 1]"
  by (simp add: summarize_chunk_def Let_def example_env_def empty_world_def py_print_def
        is_error_response_examples strip_examples str_nat_1)

theorem fallback_on_error_marker_witness:
  "0 < length [''text'']
   \<and> is_error_response (analyze_document_chunk failing_env ''text'' 0 1)
   \<and> fst (summarize_loop failing_env 0 1 [''text''] [] empty_world) ! 0 =
       ''--- Chunk 1 ---'' @ [CHR 0x0A] @ ''Error: Connection error.''
   \<and> calls (snd (summarize_chunk failing_env 0 1 ''text'' empty_world)) =
       [AnalyzeDocumentChunk ''text'' 0 1, QueryChatGPT (chatgpt_prompt ''text'')]
   \<and> \<not> is_error_response (analyze_document_chunk example_env ''text'' 0 1)
   \<and> fst (summarize_loop example_env 0 1 [''text''] [] empty_world) ! 0 =
       ''--- Chunk 1 ---'' @ [CHR 0x0A] @ ''[ERROR: API request failed - 500]''"
proof -
  have a: "analyze_document_chunk failing_env chunk i n = ''Error: request timed out''"
    for chunk i n by (simp add: failing_env_def)
  have b: "analyze_document_chunk example_env chunk i n = ''[ERROR: API request failed - 500]''"
    for chunk i n by (simp add: example_env_def)
  have q: "fst (query_chatgpt failing_env (chatgpt_prompt ''text'') empty_world) =
             ''Error: Connection error.''"
    by (simp add: fst_query_chatgpt failing_env_def example_env_def)
  have c: "calls empty_world = []" by (simp add: empty_world_def)
  from fallback_on_error_marker [of 0 "[''text'']" failing_env empty_world]
       fallback_on_error_marker [of 0 "[''text'']" example_env empty_world]
  show ?thesis
    by (simp add: a b q c is_error_response_examples strip_examples str_nat_1)
qed

section \<open>Properties of process\_pdf\<close>

lemma log_error_unfold:
  "log_error env reason filename w =
     (let w1 = w\<lparr>clock := Suc (clock w)\<rparr>;
          entry = JObj [(''timestamp'', JStr (isoformat env (clock w))), (''source'', JStr filename),
                        (''reason'', JStr reason), (''flag'', JStr ''processing_error'')];
          log_path = path_join ENTROPY_DIR ''processing_errors.json''
      in case (if path_exists log_path w then json_load log_path w else Inr (JArr [])) of
           Inl e \<Rightarrow> (Inl e, w1)
         | Inr logs \<Rightarrow>
             (case py_append logs entry of
                Inl e \<Rightarrow> (Inl e, w1)
              | Inr logs' \<Rightarrow>
                  (Inr (), py_print [Txt ''[ERROR] '', Txt reason, Txt '' for '', Txt filename]
                             (json_dump log_path logs' w1))))"
  by (simp add: log_error_def and_then_def eval_py_def load_step_def print_step_def
        datetime_now_def Let_def path_exists_def json_load_def split: sum.splits)

lemma extract_empty:
  assumes "PdfReader env filepath = Some pages" "pages_loop 0 pages [] = []"
  shows "extract_text_from_pdf env filepath w =
           (Some [], py_print [Txt ''[INFO] Extracting text from '', Txt filepath] w)"
  using assms by (simp add: extract_text_from_pdf_def Let_def)

lemma chunker_empty: "chunker chunk_size overlap [] = Some []"
  by (simp add: chunker_def chunk_loop.simps)

lemma calls_log_error: "calls (snd (log_error env reason filename w)) = calls w"
  by (simp add: log_error_unfold Let_def py_print_def json_dump_def split: sum.splits)

lemma files_log_error:
  assumes "path \<noteq> path_join ENTROPY_DIR ''processing_errors.json''"
  shows "files (snd (log_error env reason filename w)) path = files w path"
  using assms
  by (simp add: log_error_unfold Let_def py_print_def json_dump_def split: sum.splits)

lemma log_error_fresh:
  assumes "files w (path_join ENTROPY_DIR ''processing_errors.json'') = None"
  shows "fst (log_error env reason filename w) = Inr ()"
    and "files (snd (log_error env reason filename w)) (path_join ENTROPY_DIR ''processing_errors.json'')
           = Some (Json (JArr [JObj [(''timestamp'', JStr (isoformat env (clock w))),
                (''source'', JStr filename), (''reason'', JStr reason),
                (''flag'', JStr ''processing_error'')]]))"
  using assms
  by (simp_all add: log_error_unfold Let_def path_exists_def py_print_def json_dump_def)

lemma log_error_append:
  assumes "files w (path_join ENTROPY_DIR ''processing_errors.json'') = Some (Json (JArr logs))"
  shows "fst (log_error env reason filename w) = Inr ()"
    and "files (snd (log_error env reason filename w)) (path_join ENTROPY_DIR ''processing_errors.json'')
           = Some (Json (JArr (logs @ [JObj [(''timestamp'', JStr (isoformat env (clock w))),
                (''source'', JStr filename), (''reason'', JStr reason),
                (''flag'', JStr ''processing_error'')]])))"
  using assms
  by (simp_all add: log_error_unfold Let_def path_exists_def json_load_def py_print_def
        json_dump_def)

lemma process_pdf_empty:
  assumes "PdfReader env filepath = Some pages" "pages_loop 0 pages [] = []"
  shows "process_pdf env filepath filename link w =
           Some (and_then (log_error env ''Failed to extract text'' filename)
                   (\<lambda>_ w3. (Inr False, w3))
                   (py_print [Txt ''[INFO] Extracting text from '', Txt filepath]
                      (py_print [Txt ''[INFO] Processing '', Txt filename, Txt '' with Gemini''] w)))"
  by (simp add: process_pdf_def Let_def extract_empty [OF assms])

lemma and_then_const:
  "fst (and_then m (\<lambda>_ w3. (Inr False, w3)) w) =
     (case fst (m w) of Inl e \<Rightarrow> Inl e | Inr _ \<Rightarrow> Inr False)"
  "snd (and_then m (\<lambda>_ w3. (Inr False, w3)) w) = snd (m w)"
  by (simp_all add: and_then_def split_beta split: sum.splits)

text \<open>
  Claim C2, as amended. For a document whose extracted text is empty, \<^verbatim>\<open>process_pdf\<close>
  returns at the guard \<^verbatim>\<open>if not content\<close>: it never answers True, it calls no provider, so
  that no summary and no reflection is produced, and it changes no file but the error
  log, so that no result entry, no archive record and no reflection file is written.
  When the error log is absent or holds a list, the answer is False and the log holds
  one more record, with the reason \<^verbatim>\<open>"Failed to extract text"\<close>. The chunking loop, which
  gives zero chunks on the empty text, is not reached.
\<close>

theorem process_pdf_empty_text:
  fixes env :: env and w :: world and filename :: string
  defines "log_path \<equiv> path_join ENTROPY_DIR ''processing_errors.json''"
  defines "entry \<equiv> JObj [(''timestamp'', JStr (isoformat env (clock w))),
                (''source'', JStr filename), (''reason'', JStr ''Failed to extract text''),
                (''flag'', JStr ''processing_error'')]"
  assumes "PdfReader env filepath = Some pages" "pages_loop 0 pages [] = []"
  shows "\<exists>r w'. process_pdf env filepath filename link w = Some (r, w')
     \<and> r \<noteq> Inr True
     \<and> calls w' = calls w
     \<and> (\<forall>path. path \<noteq> log_path \<longrightarrow> files w' path = files w path)
     \<and> (files w log_path = None \<longrightarrow>
          r = Inr False \<and> files w' log_path = Some (Json (JArr [entry])))
     \<and> (\<forall>logs. files w log_path = Some (Json (JArr logs)) \<longrightarrow>
          r = Inr False \<and> files w' log_path = Some (Json (JArr (logs @ [entry]))))"
proof -
  define w2 where "w2 = py_print [Txt ''[INFO] Extracting text from '', Txt filepath]
                      (py_print [Txt ''[INFO] Processing '', Txt filename, Txt '' with Gemini''] w)"
  define R where "R = and_then (log_error env ''Failed to extract text'' filename)
                   (\<lambda>_ w3. (Inr False, w3)) w2"
  have p: "process_pdf env filepath filename link w = Some (fst R, snd R)"
    unfolding R_def w2_def by (simp add: process_pdf_empty [OF assms(3,4)])
  have w2: "files w2 = files w" "calls w2 = calls w" "clock w2 = clock w"
    by (simp_all add: w2_def py_print_def)
  have r: "fst R = (case fst (log_error env ''Failed to extract text'' filename w2) of
                      Inl e \<Rightarrow> Inl e | Inr _ \<Rightarrow> Inr False)"
    and s: "snd R = snd (log_error env ''Failed to extract text'' filename w2)"
    unfolding R_def by (rule and_then_const)+
  have 1: "fst R \<noteq> Inr True" by (simp add: r split: sum.splits)
  have 2: "calls (snd R) = calls w" by (simp add: s calls_log_error w2)
  have 3: "\<forall>path. path \<noteq> log_path \<longrightarrow> files (snd R) path = files w path"
    unfolding log_path_def by (simp add: s files_log_error w2)
  have 4: "files w log_path = None \<longrightarrow>
          fst R = Inr False \<and> files (snd R) log_path = Some (Json (JArr [entry]))"
  proof
    assume "files w log_path = None"
    then have n: "files w2 (path_join ENTROPY_DIR ''processing_errors.json'') = None"
      by (simp add: w2 log_path_def)
    show "fst R = Inr False \<and> files (snd R) log_path = Some (Json (JArr [entry]))"
      unfolding log_path_def entry_def
      by (simp add: r s log_error_fresh [OF n] w2)
  qed
  have 5: "\<forall>logs. files w log_path = Some (Json (JArr logs)) \<longrightarrow>
          fst R = Inr False \<and> files (snd R) log_path = Some (Json (JArr (logs @ [entry])))"
  proof (intro allI impI)
    fix logs assume "files w log_path = Some (Json (JArr logs))"
    then have n: "files w2 (path_join ENTROPY_DIR ''processing_errors.json'') = Some (Json (JArr logs))"
      by (simp add: w2 log_path_def)
    show "fst R = Inr False \<and> files (snd R) log_path = Some (Json (JArr (logs @ [entry])))"
      unfolding log_path_def entry_def
      by (simp add: r s log_error_append [OF n] w2)
  qed
  from p 1 2 3 4 5 show ?thesis
    by - (rule exI [of _ "fst R"], rule exI [of _ "snd R"], intro conjI)
qed

text \<open>
  The claim as stated fails: for a PDF with two pages without text the extracted text is
  empty, \<^verbatim>\<open>process_pdf\<close> answers False, and neither the result entry nor the archive
  exists afterwards.
\<close>

theorem process_pdf_empty_text_counterexample:
  "fst (extract_text_from_pdf example_env ''source_pdfs/blank.pdf'' empty_world) = Some []
   \<and> answer_of (process_pdf example_env ''source_pdfs/blank.pdf'' ''blank.pdf'' False empty_world)
       = Some (Inr False)
   \<and> file_after (process_pdf example_env ''source_pdfs/blank.pdf'' ''blank.pdf'' False empty_world)
        (path_join MODI_DIR ''blank_gemini.json'') = Some None
   \<and> file_after (process_pdf example_env ''source_pdfs/blank.pdf'' ''blank.pdf'' False empty_world)
        VALON_ARCHIVE = Some None
   \<and> calls_after (process_pdf example_env ''source_pdfs/blank.pdf'' ''blank.pdf'' False empty_world)
       = Some []"
proof -
  have a: "PdfReader example_env ''source_pdfs/blank.pdf'' = Some [[], []]"
    by (simp add: example_env_def)
  have b: "pages_loop 0 [[], []] [] = []" by simp
  have f: "files empty_world p = None" for p by (simp add: empty_world_def)
  have c: "calls empty_world = []" by (simp add: empty_world_def)
  have m: "path_join MODI_DIR ''blank_gemini.json'' \<noteq> path_join ENTROPY_DIR ''processing_errors.json''"
    by (simp add: path_join_def MODI_DIR_def ENTROPY_DIR_def MEMORY_VAULT_def)
  have v: "VALON_ARCHIVE \<noteq> path_join ENTROPY_DIR ''processing_errors.json''"
    by (simp add: path_join_def VALON_ARCHIVE_def VALON_DIR_def ENTROPY_DIR_def MEMORY_VAULT_def)
  show ?thesis
    by (simp add: answer_of_def file_after_def calls_after_def
          process_pdf_empty [OF a b] extract_empty [OF a b] and_then_const
          log_error_fresh f files_log_error [OF m] files_log_error [OF v] calls_log_error c
          py_print_def)
qed

theorem process_pdf_empty_text_witness:
  "PdfReader example_env ''source_pdfs/blank.pdf'' = Some [[], []]
   \<and> pages_loop 0 [[], []] [] = []
   \<and> (\<exists>w'. process_pdf example_env ''source_pdfs/blank.pdf'' ''blank.pdf'' False empty_world
              = Some (Inr False, w')
          \<and> calls w' = calls empty_world
          \<and> files w' (path_join ENTROPY_DIR ''processing_errors.json'') =
              Some (Json (JArr [JObj [(''timestamp'', JStr (isoformat example_env (clock empty_world))),
                (''source'', JStr ''blank.pdf''), (''reason'', JStr ''Failed to extract text''),
                (''flag'', JStr ''processing_error'')]])))"
proof -
  have a: "PdfReader example_env ''source_pdfs/blank.pdf'' = Some [[], []]"
    by (simp add: example_env_def)
  have b: "pages_loop 0 [[], []] [] = []" by simp
  have f: "files empty_world (path_join ENTROPY_DIR ''processing_errors.json'') = None"
    by (simp add: empty_world_def)
  from process_pdf_empty_text [OF a b, of "''blank.pdf''" False empty_world]
  obtain r w' where
    p: "process_pdf example_env ''source_pdfs/blank.pdf'' ''blank.pdf'' False empty_world = Some (r, w')"
    and c: "calls w' = calls empty_world"
    and n: "files empty_world (path_join ENTROPY_DIR ''processing_errors.json'') = None \<longrightarrow>
          r = Inr False \<and> files w' (path_join ENTROPY_DIR ''processing_errors.json'') =
            Some (Json (JArr [JObj [(''timestamp'', JStr (isoformat example_env (clock empty_world))),
                (''source'', JStr ''blank.pdf''), (''reason'', JStr ''Failed to extract text''),
                (''flag'', JStr ''processing_error'')]]))"
    by (elim exE conjE) (rule that)
  from n [rule_format, OF f] have r: "r = Inr False"
    and l: "files w' (path_join ENTROPY_DIR ''processing_errors.json'') =
            Some (Json (JArr [JObj [(''timestamp'', JStr (isoformat example_env (clock empty_world))),
                (''source'', JStr ''blank.pdf''), (''reason'', JStr ''Failed to extract text''),
                (''flag'', JStr ''processing_error'')]]))"
    by (rule conjunct1, rule conjunct2)
  from p have p': "process_pdf example_env ''source_pdfs/blank.pdf'' ''blank.pdf'' False empty_world
              = Some (Inr False, w')"
    by (simp only: r)
  have "\<exists>w'. process_pdf example_env ''source_pdfs/blank.pdf'' ''blank.pdf'' False empty_world
              = Some (Inr False, w')
          \<and> calls w' = calls empty_world
          \<and> files w' (path_join ENTROPY_DIR ''processing_errors.json'') =
              Some (Json (JArr [JObj [(''timestamp'', JStr (isoformat example_env (clock empty_world))),
                (''source'', JStr ''blank.pdf''), (''reason'', JStr ''Failed to extract text''),
                (''flag'', JStr ''processing_error'')]]))"
    using p' c l by - (rule exI [of _ w'], intro conjI)
  with a b show ?thesis by (intro conjI)
qed

end
